theory Spec2Isabelle
  imports Complex_Main "HOL-Library.Multiset" "HOL-Library.Char_ord" "HOL-Library.List_Lexorder"
    "HOL-Library.Log_Nat"
begin

section \<open>mongoose-safe-query: the query checks of \<open>src/safeQuery.ts\<close>\<close>

text \<open>
  A shallow embedding of the class \<open>SafeQuery\<close> (\<open>src/safeQuery.ts\<close>) and of its option
  types (\<open>src/types.ts\<close>). Strings are \<open>char list\<close>; only the characters \<open>$\<close> and \<open>.\<close> are
  ever inspected, and strings are compared as wholes. A JavaScript \<open>Set<string>\<close> that is only
  asked \<open>has\<close> and \<open>add\<close> is a HOL set; one that is read back in insertion order is a list
  without repetitions.
\<close>

subsection \<open>JavaScript numbers\<close>

text \<open>
  A JavaScript number is an IEEE 754 double. The special values are explicit, and a finite
  double is the rational number it denotes; the two zeros are one number, as they are for
  every comparison. The numbers a program has are the values of \<open>roundToDouble\<close>.
\<close>

datatype jsnum = NaN | NegInfinity | Finite rat | Infinity

text \<open>
  Rounding to the nearest double, ties to even, as every arithmetic operation and every
  numeric literal of JavaScript does. For a positive \<open>x\<close>, \<open>binadeExponent x\<close> is the \<open>e\<close>
  with \<open>2 ^ e \<le> x < 2 ^ (e + 1)\<close>, found from the bit lengths of numerator and denominator.
  The doubles around \<open>x\<close> are the multiples of \<open>2 ^ (e - 52)\<close> (53 significant bits), and of
  \<open>2 ^ -1074\<close> below the normal range; the nearest multiple is the result, and it overflows to
  \<open>Infinity\<close> from \<open>2 ^ 1024\<close> on.
\<close>

definition binadeExponent :: "rat \<Rightarrow> int" where
  "binadeExponent x =
     (let (a, b) = quotient_of x; k = bitlen a - bitlen b
      in if power_int 2 k \<le> x then k else k - 1)"

definition roundHalfEven :: "rat \<Rightarrow> int" where
  "roundHalfEven x =
     (let f = \<lfloor>x\<rfloor>; r = x - of_int f
      in if r < 1 / 2 then f else if 1 / 2 < r then f + 1 else if even f then f else f + 1)"

definition nearestValue :: "rat \<Rightarrow> rat" where
  "nearestValue x =
     (let e = max (binadeExponent x) (- 1022);
          ulp = power_int 2 (e - 52)
      in of_int (roundHalfEven (x / ulp)) * ulp)"

definition roundPositive :: "rat \<Rightarrow> jsnum" where
  "roundPositive x =
     (let v = nearestValue x in if power_int 2 1024 \<le> v then Infinity else Finite v)"

fun jsNegate :: "jsnum \<Rightarrow> jsnum" where
  "jsNegate NaN = NaN"
| "jsNegate NegInfinity = Infinity"
| "jsNegate (Finite x) = Finite (- x)"
| "jsNegate Infinity = NegInfinity"

definition roundToDouble :: "rat \<Rightarrow> jsnum" where
  "roundToDouble x =
     (if x = 0 then Finite 0
      else if 0 < x then roundPositive x
      else jsNegate (roundPositive (- x)))"

text \<open>
  \<open>a / b\<close> for two array lengths: a division by zero yields \<open>NaN\<close> (for \<open>0 / 0\<close>) or
  \<open>Infinity\<close>, and every other quotient is rounded to the nearest double. An array length is
  below \<open>2 ^ 32\<close>, so the lengths themselves are doubles.
\<close>

definition jsDivide :: "nat \<Rightarrow> nat \<Rightarrow> jsnum" where
  "jsDivide a b =
     (if b = 0 then (if a = 0 then NaN else Infinity)
      else roundToDouble (of_nat a / of_nat b))"

text \<open>\<open>a >= b\<close>: false when either side is \<open>NaN\<close>.\<close>

fun jsGe :: "jsnum \<Rightarrow> jsnum \<Rightarrow> bool" where
  "jsGe NaN b = False"
| "jsGe a NaN = False"
| "jsGe Infinity b = True"
| "jsGe a NegInfinity = True"
| "jsGe NegInfinity b = False"
| "jsGe a Infinity = False"
| "jsGe (Finite x) (Finite y) = (y \<le> x)"

text \<open>\<open>x || 0\<close>: a falsy number (\<open>NaN\<close> or zero) is replaced by \<open>0\<close>.\<close>

definition jsOrZero :: "jsnum \<Rightarrow> jsnum" where
  "jsOrZero x = (if x = NaN \<or> x = Finite 0 then Finite 0 else x)"

text \<open>\<open>Math.max(x, 0)\<close>.\<close>

fun jsMaxZero :: "jsnum \<Rightarrow> jsnum" where
  "jsMaxZero NaN = NaN"
| "jsMaxZero NegInfinity = Finite 0"
| "jsMaxZero (Finite x) = Finite (max x 0)"
| "jsMaxZero Infinity = Infinity"

subsection \<open>Strings\<close>

text \<open>\<open>s.split('.')[0]\<close>: the part of \<open>s\<close> before its first dot, all of \<open>s\<close> when it has none.\<close>

definition splitFirst :: "string \<Rightarrow> string" where
  "splitFirst s = takeWhile (\<lambda>c. c \<noteq> CHR ''.'') s"

text \<open>\<open>s.startsWith('$')\<close>.\<close>

fun startsWithDollar :: "string \<Rightarrow> bool" where
  "startsWithDollar [] = False"
| "startsWithDollar (c # cs) = (c = CHR ''$'')"

text \<open>\<open>xs.join(sep)\<close>.\<close>

fun join :: "string \<Rightarrow> string list \<Rightarrow> string" where
  "join sep [] = []"
| "join sep [x] = x"
| "join sep (x # y # ys) = x @ sep @ join sep (y # ys)"

text \<open>\<open>s.slice(-5)\<close>: the last five characters, all of \<open>s\<close> when it is shorter.\<close>

definition sliceLast5 :: "string \<Rightarrow> string" where
  "sliceLast5 s = drop (length s - 5) s"

subsection \<open>Index coverage: \<open>isCoveredByIndex\<close>\<close>

text \<open>
  The inner loop of \<open>isCoveredByIndex\<close> over the fields of one index: the counter grows while
  the root of the index field is in the set of query fields, and the loop breaks at the first
  index field whose root is not.
\<close>

fun coveredFieldCount :: "string set \<Rightarrow> string list \<Rightarrow> nat \<Rightarrow> nat" where
  "coveredFieldCount queryFieldSet [] n = n"
| "coveredFieldCount queryFieldSet (indexField # rest) n =
     (if splitFirst indexField \<in> queryFieldSet
      then coveredFieldCount queryFieldSet rest (n + 1)
      else n)"

text \<open>The outer loop over the indices: the first index that reaches the threshold returns.\<close>

fun indicesLoop :: "nat \<Rightarrow> string set \<Rightarrow> string list list \<Rightarrow> jsnum \<Rightarrow> bool" where
  "indicesLoop totalFieldCount queryFieldSet [] minCoverage = False"
| "indicesLoop totalFieldCount queryFieldSet (index # rest) minCoverage =
     (if jsGe (jsDivide (coveredFieldCount queryFieldSet index 0) totalFieldCount) minCoverage
      then True
      else indicesLoop totalFieldCount queryFieldSet rest minCoverage)"

definition isCoveredByIndex :: "string list \<Rightarrow> string list list \<Rightarrow> jsnum \<Rightarrow> bool" where
  "isCoveredByIndex queryFields indices minCoverage =
     indicesLoop (length queryFields) (set queryFields) indices minCoverage"

text \<open>
  The coverage the specification describes: the number of fields in the longest leading part
  of the index whose roots are all query fields, and the threshold test on it, with the
  division and the comparison of the program's numbers.
\<close>

definition prefixCoverage :: "string list \<Rightarrow> string list \<Rightarrow> nat" where
  "prefixCoverage queryFields index =
     length (takeWhile (\<lambda>indexField. splitFirst indexField \<in> set queryFields) index)"

definition meetsThreshold :: "string list \<Rightarrow> string list \<Rightarrow> jsnum \<Rightarrow> bool" where
  "meetsThreshold queryFields index minCoverage =
     jsGe (jsDivide (prefixCoverage queryFields index) (length queryFields)) minCoverage"

subsection \<open>Filter expressions\<close>

text \<open>
  A query filter is a JavaScript value. An object is the list of its own enumerable entries in
  the order of \<open>Object.entries\<close>; the values other than arrays and objects are never looked
  into by the code modelled here.
\<close>

datatype jsprim = Null | Undefined | Bool bool | Num jsnum | Str string

datatype jsval =
    JPrim jsprim
  | JArr "jsval list"
  | JObj "(string \<times> jsval) list"

datatype error = TypeError

definition SUPPORTED_QUERY_SELECTORS :: "string list" where
  "SUPPORTED_QUERY_SELECTORS = [''$and'', ''$nor'', ''$or'']"

definition FIELDS_TO_IGNORE :: "string list" where
  "FIELDS_TO_IGNORE = [''_bsontype'']"

text \<open>\<open>set.add(x)\<close> on a \<open>Set\<close> kept in insertion order.\<close>

definition setAdd :: "string \<Rightarrow> string list \<Rightarrow> string list" where
  "setAdd x xs = (if x \<in> set xs then xs else xs @ [x])"

text \<open>The decimal numeral of an array index, as \<open>Object.entries\<close> names it.\<close>

fun decimal :: "nat \<Rightarrow> string" where
  "decimal n =
     (if n < 10 then [char_of (48 + n)]
      else decimal (n div 10) @ [char_of (48 + n mod 10)])"

declare decimal.simps [simp del]

definition indexKeys :: "nat \<Rightarrow> string list" where
  "indexKeys n = map decimal [0..<n]"

text \<open>
  \<open>getRootQueryFields\<close>, with its two loops: \<open>entriesLoop\<close> is the loop over
  \<open>Object.entries(queryConditions)\<close> and \<open>subConditionsLoop\<close> the loop over the elements of
  the array under \<open>$and\<close>, \<open>$nor\<close> or \<open>$or\<close>; both carry the set \<open>queryFields\<close>. The equation
  of \<open>entriesLoop\<close> for an array value is the case \<open>Array.isArray(expression)\<close>, the one after
  it the case of every other value, which the branch of the three selectors never takes.

  An argument that is not an object: \<open>Object.entries\<close> throws a \<open>TypeError\<close> on \<open>null\<close> and
  \<open>undefined\<close>, has no entry for a boolean or a number, and lists the indices of a string or
  an array as keys. An index is a key that is not ignored, is no selector, does not start
  with \<open>$\<close> and has no dot, so the loop adds each index.
\<close>

fun getRootQueryFields :: "jsval \<Rightarrow> error + string list"
  and entriesLoop :: "(string \<times> jsval) list \<Rightarrow> string list \<Rightarrow> error + string list"
  and subConditionsLoop :: "jsval list \<Rightarrow> string list \<Rightarrow> error + string list"
where
  "getRootQueryFields (JObj entries) = entriesLoop entries []"
| "getRootQueryFields (JArr elements) = Inr (indexKeys (length elements))"
| "getRootQueryFields (JPrim p) =
     (case p of
        Null \<Rightarrow> Inl TypeError
      | Undefined \<Rightarrow> Inl TypeError
      | Bool b \<Rightarrow> Inr []
      | Num x \<Rightarrow> Inr []
      | Str s \<Rightarrow> Inr (indexKeys (length s)))"
| "entriesLoop [] queryFields = Inr queryFields"
| "entriesLoop ((fieldOrOperator, JArr expression) # rest) queryFields =
     (if fieldOrOperator \<in> set FIELDS_TO_IGNORE then entriesLoop rest queryFields
      else if fieldOrOperator \<in> set SUPPORTED_QUERY_SELECTORS then
        (case subConditionsLoop expression queryFields of
           Inl e \<Rightarrow> Inl e
         | Inr queryFields' \<Rightarrow> entriesLoop rest queryFields')
      else if \<not> startsWithDollar fieldOrOperator
        then entriesLoop rest (setAdd (splitFirst fieldOrOperator) queryFields)
      else entriesLoop rest queryFields)"
| "entriesLoop ((fieldOrOperator, expression) # rest) queryFields =
     (if fieldOrOperator \<in> set FIELDS_TO_IGNORE then entriesLoop rest queryFields
      else if \<not> startsWithDollar fieldOrOperator
        then entriesLoop rest (setAdd (splitFirst fieldOrOperator) queryFields)
      else entriesLoop rest queryFields)"
| "subConditionsLoop [] queryFields = Inr queryFields"
| "subConditionsLoop (subConditions # rest) queryFields =
     (case getRootQueryFields subConditions of
        Inl e \<Rightarrow> Inl e
      | Inr fs \<Rightarrow> subConditionsLoop rest (fold setAdd fs queryFields))"

text \<open>
  The filters of the specification: an object in which the value of a key that is neither
  ignored nor a key of \<open>$and\<close>, \<open>$nor\<close>, \<open>$or\<close> is arbitrary, and the array under one of these
  three holds filters again.
\<close>

fun isFilter :: "jsval \<Rightarrow> bool"
  and areFilterEntries :: "(string \<times> jsval) list \<Rightarrow> bool"
  and areFilters :: "jsval list \<Rightarrow> bool"
where
  "isFilter (JObj entries) = areFilterEntries entries"
| "isFilter (JArr elements) = False"
| "isFilter (JPrim p) = False"
| "areFilterEntries [] = True"
| "areFilterEntries ((k, JArr subs) # rest) =
     ((if k \<in> set SUPPORTED_QUERY_SELECTORS then areFilters subs else True)
      \<and> areFilterEntries rest)"
| "areFilterEntries ((k, v) # rest) = areFilterEntries rest"
| "areFilters [] = True"
| "areFilters (f # fs) = (isFilter f \<and> areFilters fs)"

text \<open>
  The top-level field names of the specification: a plain key gives the part before its first
  dot, an ignored key and an operator key give nothing, and the fields of a sub-filter under a
  combinator are fields of the filter.
\<close>

inductive reachesField :: "jsval \<Rightarrow> string \<Rightarrow> bool" where
  plainKey:
    "(k, v) \<in> set entries \<Longrightarrow> k \<notin> set FIELDS_TO_IGNORE \<Longrightarrow> \<not> startsWithDollar k
       \<Longrightarrow> reachesField (JObj entries) (splitFirst k)"
| combinator:
    "(k, JArr subs) \<in> set entries \<Longrightarrow> k \<in> set SUPPORTED_QUERY_SELECTORS \<Longrightarrow> sub \<in> set subs
       \<Longrightarrow> reachesField sub f \<Longrightarrow> reachesField (JObj entries) f"

code_pred reachesField .

definition topLevelFields :: "jsval \<Rightarrow> string set" where
  "topLevelFields queryConditions = {f. reachesField queryConditions f}"

subsection \<open>The types of \<open>src/types.ts\<close>\<close>

record ModelMetadata =
  md_modelName :: string
  md_fields :: "string set"
  md_indices :: "string list list"

record ViolatingQuery =
  vq_modelName :: string
  vq_violatingFields :: "string list"
  vq_comment :: "string option"
  vq_fullQuery :: jsval

text \<open>
  The two error classes, each with its message. A warning callback returns nothing and acts on
  the world outside; its action is the value the model lets it return.
\<close>

datatype failure = InvalidField string | LowIndexCoverage string

datatype effect = ConsoleWarn string | External string

record BaseCheckHandler =
  warnAction :: "(ViolatingQuery \<Rightarrow> effect) option"
  throwMessage :: "(ViolatingQuery \<Rightarrow> string) option"

type_synonym FieldCheckHandler = BaseCheckHandler

record IndexCheckHandler = BaseCheckHandler +
  minCoverage :: jsnum

record FullSafeQueryOptions =
  opt_shouldWarn :: "unit \<Rightarrow> bool"
  opt_shouldThrow :: "unit \<Rightarrow> bool"
  opt_checkField :: FieldCheckHandler
  opt_checkIndex :: IndexCheckHandler

text \<open>\<open>Partial<FullSafeQueryOptions>\<close> and \<open>Partial<IndexCheckHandler>\<close>: every field may be absent.\<close>

record SafeQueryOptions =
  part_shouldWarn :: "(unit \<Rightarrow> bool) option"
  part_shouldThrow :: "(unit \<Rightarrow> bool) option"
  part_checkField :: "FieldCheckHandler option"
  part_checkIndex :: "IndexCheckHandler option"

record PartialIndexCheckHandler = BaseCheckHandler +
  part_minCoverage :: "jsnum option"

definition defaultFieldWarningHandler :: "ViolatingQuery \<Rightarrow> effect" where
  "defaultFieldWarningHandler query =
     ConsoleWarn (''Invalid query fields in '' @ vq_modelName query @ '': ''
       @ join '', '' (vq_violatingFields query))"

definition defaultIndexWarningHandler :: "ViolatingQuery \<Rightarrow> effect" where
  "defaultIndexWarningHandler query =
     ConsoleWarn (''Insufficient index coverage in '' @ vq_modelName query @ '': ''
       @ join '', '' (vq_violatingFields query))"

definition DEFAULT_OPTIONS :: FullSafeQueryOptions where
  "DEFAULT_OPTIONS =
     \<lparr> opt_shouldWarn = (\<lambda>_. True),
       opt_shouldThrow = (\<lambda>_. False),
       opt_checkField = \<lparr> warnAction = Some defaultFieldWarningHandler, throwMessage = None \<rparr>,
       opt_checkIndex = \<lparr> warnAction = Some defaultIndexWarningHandler, throwMessage = None,
                          minCoverage = Finite (1 / 2) \<rparr> \<rparr>"

subsection \<open>The class \<open>SafeQuery\<close>\<close>

record SafeQuery =
  modelMetadataMap :: "string \<rightharpoonup> ModelMetadata"
  warnedFieldQueries :: "string set"
  warnedIndexQueries :: "string set"
  options :: FullSafeQueryOptions

text \<open>
  \<open>_.defaults(object, source)\<close> and \<open>_.defaultsDeep({}, options, DEFAULT_OPTIONS)\<close> at the
  shapes they are used at: a field that is absent is taken from the source, and
  \<open>defaultsDeep\<close> does so inside the two handler objects as well.
\<close>

definition orElse :: "'a option \<Rightarrow> 'a option \<Rightarrow> 'a option" where
  "orElse x y = (case x of Some v \<Rightarrow> Some v | None \<Rightarrow> y)"

definition orDefault :: "'a option \<Rightarrow> 'a \<Rightarrow> 'a" where
  "orDefault x d = (case x of Some v \<Rightarrow> v | None \<Rightarrow> d)"

definition defaultsField :: "FieldCheckHandler \<Rightarrow> FieldCheckHandler \<Rightarrow> FieldCheckHandler" where
  "defaultsField object source =
     \<lparr> warnAction = orElse (warnAction object) (warnAction source),
       throwMessage = orElse (throwMessage object) (throwMessage source) \<rparr>"

definition defaultsIndex :: "PartialIndexCheckHandler \<Rightarrow> IndexCheckHandler \<Rightarrow> IndexCheckHandler" where
  "defaultsIndex object source =
     \<lparr> warnAction = orElse (warnAction object) (warnAction source),
       throwMessage = orElse (throwMessage object) (throwMessage source),
       minCoverage = orDefault (part_minCoverage object) (minCoverage source) \<rparr>"

definition asPartial :: "IndexCheckHandler \<Rightarrow> PartialIndexCheckHandler" where
  "asPartial h =
     \<lparr> warnAction = warnAction h, throwMessage = throwMessage h,
       part_minCoverage = Some (minCoverage h) \<rparr>"

definition defaultsDeep :: "SafeQueryOptions \<Rightarrow> FullSafeQueryOptions \<Rightarrow> FullSafeQueryOptions" where
  "defaultsDeep given source =
     \<lparr> opt_shouldWarn = orDefault (part_shouldWarn given) (opt_shouldWarn source),
       opt_shouldThrow = orDefault (part_shouldThrow given) (opt_shouldThrow source),
       opt_checkField =
         (case part_checkField given of
            None \<Rightarrow> opt_checkField source
          | Some h \<Rightarrow> defaultsField h (opt_checkField source)),
       opt_checkIndex =
         (case part_checkIndex given of
            None \<Rightarrow> opt_checkIndex source
          | Some h \<Rightarrow> defaultsIndex (asPartial h) (opt_checkIndex source)) \<rparr>"

text \<open>\<open>DEFAULT_OPTIONS\<close> read at the type of the constructor's parameter.\<close>

definition defaultParameter :: SafeQueryOptions where
  "defaultParameter =
     \<lparr> part_shouldWarn = Some (opt_shouldWarn DEFAULT_OPTIONS),
       part_shouldThrow = Some (opt_shouldThrow DEFAULT_OPTIONS),
       part_checkField = Some (opt_checkField DEFAULT_OPTIONS),
       part_checkIndex = Some (opt_checkIndex DEFAULT_OPTIONS) \<rparr>"

text \<open>The constructor; \<open>None\<close> is the call without an argument.\<close>

definition newSafeQuery :: "SafeQueryOptions option \<Rightarrow> SafeQuery" where
  "newSafeQuery given =
     \<lparr> modelMetadataMap = Map.empty,
       warnedFieldQueries = {},
       warnedIndexQueries = {},
       options = defaultsDeep (orDefault given defaultParameter) DEFAULT_OPTIONS \<rparr>"

text \<open>
  What \<open>getMetadata\<close> reads of a mongoose model: its name, the entries of \<open>schema.tree\<close>, and
  the pairs \<open>schema.indexes()\<close> returns, each an object of index fields and an object of index
  options.
\<close>

record Schema =
  tree :: "(string \<times> jsval) list"
  indexes :: "((string \<times> jsval) list \<times> (string \<times> jsval) list) list"

record Model =
  modelName :: string
  schema :: Schema

definition objectKeys :: "(string \<times> jsval) list \<Rightarrow> string list" where
  "objectKeys entries = map fst entries"

definition getMetadata :: "Model \<Rightarrow> SafeQuery \<Rightarrow> ModelMetadata \<times> SafeQuery" where
  "getMetadata model sq =
     (case modelMetadataMap sq (modelName model) of
        Some existingMetadata \<Rightarrow> (existingMetadata, sq)
      | None \<Rightarrow>
          (let schemaIndexes = indexes (schema model);
               newMetadata =
                 \<lparr> md_modelName = modelName model,
                   md_fields = set (objectKeys (tree (schema model))),
                   md_indices = map (\<lambda>a. objectKeys (fst a)) schemaIndexes @ [[''_id'']] \<rparr>
           in (newMetadata,
               sq\<lparr>modelMetadataMap := (modelMetadataMap sq)(modelName model \<mapsto> newMetadata)\<rparr>)))"

definition shouldWarn :: "SafeQuery \<Rightarrow> bool" where
  "shouldWarn sq = opt_shouldWarn (options sq) ()"

definition shouldThrow :: "SafeQuery \<Rightarrow> bool" where
  "shouldThrow sq = opt_shouldThrow (options sq) ()"

text \<open>The argument of \<open>setWarnCondition\<close> and \<open>setThrowCondition\<close>: a boolean or a predicate.\<close>

datatype condition = Constant bool | Predicate "unit \<Rightarrow> bool"

definition setWarnCondition :: "condition \<Rightarrow> SafeQuery \<Rightarrow> SafeQuery" where
  "setWarnCondition warnCondition sq =
     (case warnCondition of
        Constant b \<Rightarrow> sq\<lparr>options := (options sq)\<lparr>opt_shouldWarn := (\<lambda>_. b)\<rparr>\<rparr>
      | Predicate p \<Rightarrow> sq\<lparr>options := (options sq)\<lparr>opt_shouldWarn := p\<rparr>\<rparr>)"

definition setThrowCondition :: "condition \<Rightarrow> SafeQuery \<Rightarrow> SafeQuery" where
  "setThrowCondition throwCondition sq =
     (case throwCondition of
        Constant b \<Rightarrow> sq\<lparr>options := (options sq)\<lparr>opt_shouldThrow := (\<lambda>_. b)\<rparr>\<rparr>
      | Predicate p \<Rightarrow> sq\<lparr>options := (options sq)\<lparr>opt_shouldThrow := p\<rparr>\<rparr>)"

definition setFieldCheckHandler :: "FieldCheckHandler \<Rightarrow> SafeQuery \<Rightarrow> SafeQuery" where
  "setFieldCheckHandler fieldCheckHandler sq =
     sq\<lparr>options := (options sq)
       \<lparr>opt_checkField := defaultsField fieldCheckHandler (opt_checkField (options sq))\<rparr>\<rparr>"

definition setIndexCheckHandler :: "PartialIndexCheckHandler \<Rightarrow> SafeQuery \<Rightarrow> SafeQuery" where
  "setIndexCheckHandler indexCheckHandler sq =
     sq\<lparr>options := (options sq)
       \<lparr>opt_checkIndex := defaultsIndex indexCheckHandler (opt_checkIndex (options sq))\<rparr>\<rparr>"

definition clearWarnedFieldQueries :: "SafeQuery \<Rightarrow> SafeQuery" where
  "clearWarnedFieldQueries sq = sq\<lparr>warnedFieldQueries := {}\<rparr>"

definition clearWarnedIndexQueries :: "SafeQuery \<Rightarrow> SafeQuery" where
  "clearWarnedIndexQueries sq = sq\<lparr>warnedIndexQueries := {}\<rparr>"

definition getNonExistingFields :: "string list \<Rightarrow> string set \<Rightarrow> string list" where
  "getNonExistingFields queryFields modelFields = filter (\<lambda>f. f \<notin> modelFields) queryFields"

text \<open>
  \<open>hash\<close>: \<open>_.sortBy\<close> sorts the strings in ascending order, \<open>join('')\<close> concatenates them. The
  SHA-1 digest in base64 comes from Node's \<open>crypto\<close>; it is the parameter \<open>sha1Base64\<close>, a
  function from strings to strings.
\<close>

definition hash :: "(string \<Rightarrow> string) \<Rightarrow> string list \<Rightarrow> string" where
  "hash sha1Base64 queryFields =
     (let sortedFields = sort queryFields in sha1Base64 (concat sortedFields))"

text \<open>
  The two checks return the calls they make, in order, and the object after the call: a call
  of \<open>next\<close> with an error, and a call of the \<open>warnAction\<close> with what it does. \<open>queryOptions\<close> is
  read only for its \<open>comment\<close>: \<open>None\<close> is a \<open>queryOptions\<close> that is \<open>null\<close> or \<open>undefined\<close>, and
  the inner option the comment that may be absent.
\<close>

datatype event = NextCalled failure | WarnActionCalled effect

definition checkField ::
  "(string \<Rightarrow> string) \<Rightarrow> ModelMetadata \<Rightarrow> jsval \<Rightarrow> string list \<Rightarrow> string option option
     \<Rightarrow> SafeQuery \<Rightarrow> event list \<times> SafeQuery" where
  "checkField sha1Base64 modelMetadata queryConditions queryFields queryOptions sq =
     (let violatingFields = getNonExistingFields queryFields (md_fields modelMetadata) in
      if length violatingFields = 0 then ([], sq)
      else
        let violatingQuery =
              \<lparr> vq_modelName = md_modelName modelMetadata,
                vq_violatingFields = violatingFields,
                vq_comment = (case queryOptions of None \<Rightarrow> None | Some c \<Rightarrow> c),
                vq_fullQuery = queryConditions \<rparr>
        in
          if opt_shouldThrow (options sq) () \<and> throwMessage (opt_checkField (options sq)) \<noteq> None
          then
            (let message = the (throwMessage (opt_checkField (options sq))) violatingQuery
             in ([NextCalled (InvalidField message)], sq))
          else if opt_shouldWarn (options sq) () \<and> warnAction (opt_checkField (options sq)) \<noteq> None
          then
            (let hash5 = sliceLast5 (hash sha1Base64 queryFields);
                 newQuery = (hash5 \<notin> warnedFieldQueries sq)
             in if newQuery
                then ([WarnActionCalled (the (warnAction (opt_checkField (options sq))) violatingQuery)],
                      sq\<lparr>warnedFieldQueries := insert hash5 (warnedFieldQueries sq)\<rparr>)
                else ([], sq))
          else ([], sq))"

definition checkIndex ::
  "(string \<Rightarrow> string) \<Rightarrow> ModelMetadata \<Rightarrow> jsval \<Rightarrow> string list \<Rightarrow> string option option
     \<Rightarrow> SafeQuery \<Rightarrow> event list \<times> SafeQuery" where
  "checkIndex sha1Base64 modelMetadata queryConditions queryFields queryOptions sq =
     (if length (md_indices modelMetadata) = 0 \<or> length queryFields = 0 then ([], sq)
      else
        let minCov = jsMaxZero (jsOrZero (minCoverage (opt_checkIndex (options sq)))) in
        if isCoveredByIndex queryFields (md_indices modelMetadata) minCov then ([], sq)
        else
          let violatingQuery =
                \<lparr> vq_modelName = md_modelName modelMetadata,
                  vq_violatingFields = queryFields,
                  vq_comment = (case queryOptions of None \<Rightarrow> None | Some c \<Rightarrow> c),
                  vq_fullQuery = queryConditions \<rparr>
          in
            if opt_shouldThrow (options sq) () \<and> throwMessage (opt_checkIndex (options sq)) \<noteq> None
            then
              (let message = the (throwMessage (opt_checkIndex (options sq))) violatingQuery
               in ([NextCalled (LowIndexCoverage message)], sq))
            else if opt_shouldWarn (options sq) () \<and> warnAction (opt_checkIndex (options sq)) \<noteq> None
            then
              (let hash5 = sliceLast5 (hash sha1Base64 queryFields);
                   newQuery = (hash5 \<notin> warnedIndexQueries sq)
               in if newQuery
                  then ([WarnActionCalled (the (warnAction (opt_checkIndex (options sq))) violatingQuery)],
                        sq\<lparr>warnedIndexQueries := insert hash5 (warnedIndexQueries sq)\<rparr>)
                  else ([], sq))
            else ([], sq))"

subsection \<open>Notions the properties are stated with\<close>

text \<open>The calls of a \<open>warnAction\<close> and the errors passed to \<open>next\<close> among the calls of a check.\<close>

fun warnActions :: "event list \<Rightarrow> effect list" where
  "warnActions [] = []"
| "warnActions (WarnActionCalled e # rest) = e # warnActions rest"
| "warnActions (NextCalled f # rest) = warnActions rest"

fun failures :: "event list \<Rightarrow> failure list" where
  "failures [] = []"
| "failures (NextCalled f # rest) = f # failures rest"
| "failures (WarnActionCalled e # rest) = failures rest"

text \<open>
  The digest function of the specification: sort the field names, concatenate them, hash, and
  keep the last five characters of the encoded hash.
\<close>

definition throttleDigest :: "(string \<Rightarrow> string) \<Rightarrow> string list \<Rightarrow> string" where
  "throttleDigest sha1Base64 fieldNames = sliceLast5 (sha1Base64 (concat (sort fieldNames)))"

text \<open>A query violates a check when the check gets past its early returns.\<close>

definition violatesField :: "ModelMetadata \<Rightarrow> string list \<Rightarrow> bool" where
  "violatesField modelMetadata queryFields =
     (getNonExistingFields queryFields (md_fields modelMetadata) \<noteq> [])"

definition violatesIndex :: "SafeQuery \<Rightarrow> ModelMetadata \<Rightarrow> string list \<Rightarrow> bool" where
  "violatesIndex sq modelMetadata queryFields =
     (md_indices modelMetadata \<noteq> [] \<and> queryFields \<noteq> [] \<and>
      \<not> isCoveredByIndex queryFields (md_indices modelMetadata)
          (jsMaxZero (jsOrZero (minCoverage (opt_checkIndex (options sq))))))"

text \<open>
  The warn path of a check is open when \<open>shouldWarn()\<close> holds, the handler has a
  \<open>warnAction\<close>, and \<open>shouldThrow()\<close> and the handler's \<open>throwMessage\<close> are not both there.
\<close>

definition warnPath :: "SafeQuery \<Rightarrow> ('a BaseCheckHandler_scheme) \<Rightarrow> bool" where
  "warnPath sq handler =
     (opt_shouldWarn (options sq) () \<and> warnAction handler \<noteq> None \<and>
      \<not> (opt_shouldThrow (options sq) () \<and> throwMessage handler \<noteq> None))"

text \<open>The records that the two checks hand to the callbacks.\<close>

definition fieldViolation ::
  "ModelMetadata \<Rightarrow> jsval \<Rightarrow> string list \<Rightarrow> string option option \<Rightarrow> ViolatingQuery" where
  "fieldViolation modelMetadata queryConditions queryFields queryOptions =
     \<lparr> vq_modelName = md_modelName modelMetadata,
       vq_violatingFields = getNonExistingFields queryFields (md_fields modelMetadata),
       vq_comment = (case queryOptions of None \<Rightarrow> None | Some c \<Rightarrow> c),
       vq_fullQuery = queryConditions \<rparr>"

definition indexViolation ::
  "ModelMetadata \<Rightarrow> jsval \<Rightarrow> string list \<Rightarrow> string option option \<Rightarrow> ViolatingQuery" where
  "indexViolation modelMetadata queryConditions queryFields queryOptions =
     \<lparr> vq_modelName = md_modelName modelMetadata,
       vq_violatingFields = queryFields,
       vq_comment = (case queryOptions of None \<Rightarrow> None | Some c \<Rightarrow> c),
       vq_fullQuery = queryConditions \<rparr>"

text \<open>
  The objects a program can have: the constructor's, and what any method of the class makes of
  one of them.
\<close>

inductive reachable :: "SafeQuery \<Rightarrow> bool" where
  constructed: "reachable (newSafeQuery given)"
| gotMetadata: "reachable sq \<Longrightarrow> reachable (snd (getMetadata model sq))"
| checkedField:
    "reachable sq \<Longrightarrow>
       reachable (snd (checkField sha1Base64 modelMetadata queryConditions queryFields queryOptions sq))"
| checkedIndex:
    "reachable sq \<Longrightarrow>
       reachable (snd (checkIndex sha1Base64 modelMetadata queryConditions queryFields queryOptions sq))"
| warnConditionSet: "reachable sq \<Longrightarrow> reachable (setWarnCondition c sq)"
| throwConditionSet: "reachable sq \<Longrightarrow> reachable (setThrowCondition c sq)"
| fieldCheckHandlerSet: "reachable sq \<Longrightarrow> reachable (setFieldCheckHandler fh sq)"
| indexCheckHandlerSet: "reachable sq \<Longrightarrow> reachable (setIndexCheckHandler ih sq)"
| fieldQueriesCleared: "reachable sq \<Longrightarrow> reachable (clearWarnedFieldQueries sq)"
| indexQueriesCleared: "reachable sq \<Longrightarrow> reachable (clearWarnedIndexQueries sq)"

text \<open>The index list of a metadata entry ends with the index on \<open>_id\<close> alone.\<close>

definition endsWithIdIndex :: "ModelMetadata \<Rightarrow> bool" where
  "endsWithIdIndex modelMetadata =
     (md_indices modelMetadata \<noteq> [] \<and> last (md_indices modelMetadata) = [''_id''])"

text \<open>The entry \<open>getMetadata\<close> computes for a model that is not in the cache yet.\<close>

definition newEntry :: "Model \<Rightarrow> ModelMetadata" where
  "newEntry model =
     \<lparr> md_modelName = modelName model,
       md_fields = set (objectKeys (tree (schema model))),
       md_indices = map (\<lambda>a. objectKeys (fst a)) (indexes (schema model)) @ [[''_id'']] \<rparr>"

definition cacheEndsWithIdIndex :: "SafeQuery \<Rightarrow> bool" where
  "cacheEndsWithIdIndex sq =
     (\<forall>name entry. modelMetadataMap sq name = Some entry \<longrightarrow> endsWithIdIndex entry)"

subsection \<open>Example data\<close>

text \<open>
  The project model of the end-to-end scenario: seven fields, an index on \<open>createdAt\<close> and one
  on \<open>name\<close>. \<open>plainDigest\<close> stands in for the SHA-1 digest where a concrete function is needed.
\<close>

definition projectModel :: Model where
  "projectModel =
     \<lparr> modelName = ''project'',
       schema =
         \<lparr> tree =
             [(''name'', JPrim (Str ''String'')), (''createdAt'', JPrim (Str ''String'')),
              (''updatedAt'', JPrim (Str ''String'')), (''priority'', JPrim (Str ''Number'')),
              (''active'', JPrim (Str ''Boolean'')), (''config'', JObj []),
              (''_id'', JPrim (Str ''ObjectId''))],
           indexes =
             [([(''createdAt'', JPrim (Num (Finite 1)))], [(''background'', JPrim (Bool True))]),
              ([(''name'', JPrim (Num (Finite 1)))], [(''background'', JPrim (Bool True))])] \<rparr> \<rparr>"

definition projectMetadata :: ModelMetadata where
  "projectMetadata = fst (getMetadata projectModel (newSafeQuery None))"

definition plainDigest :: "string \<Rightarrow> string" where
  "plainDigest s = s"

text \<open>
  An object that requires a coverage of 0.55, the same with throwing enabled and no
  message, an object whose cache holds the project model, a filter, and an object that throws
  with messages.
\<close>

definition strictSafeQuery :: SafeQuery where
  "strictSafeQuery =
     setIndexCheckHandler
       \<lparr> warnAction = None, throwMessage = None, part_minCoverage = Some (roundToDouble (11 / 20)) \<rparr>
       (newSafeQuery None)"

definition silentThrowSafeQuery :: SafeQuery where
  "silentThrowSafeQuery = setThrowCondition (Constant True) strictSafeQuery"

definition cachedSafeQuery :: SafeQuery where
  "cachedSafeQuery = snd (getMetadata projectModel (newSafeQuery None))"

definition exampleConditions :: jsval where
  "exampleConditions = JObj [(''name'', JPrim (Str ''x'')), (''zzz'', JPrim (Bool True))]"

definition throwingSafeQuery :: SafeQuery where
  "throwingSafeQuery =
     setIndexCheckHandler
       \<lparr> warnAction = None, throwMessage = Some (\<lambda>q. ''insufficient index coverage''),
         part_minCoverage = Some (roundToDouble (11 / 20)) \<rparr>
       (setFieldCheckHandler
          \<lparr> warnAction = None, throwMessage = Some (\<lambda>q. ''invalid field'') \<rparr>
          (setThrowCondition (Constant True) (newSafeQuery None)))"

subsection \<open>Properties of the rounding\<close>

text \<open>
  The exponent brackets its argument, so it grows with the argument; rounding to an integer
  grows with its argument and leaves integers alone. Hence rounding to a double is monotone.
\<close>

lemma binadeExponent_bounds:
  assumes "0 < x"
  shows "power_int 2 (binadeExponent x) \<le> x" and "x < power_int 2 (binadeExponent x + 1)"
proof -
  obtain a b where q: "quotient_of x = (a, b)" by (cases "quotient_of x")
  then have b: "0 < b" and x: "x = of_int a / of_int b"
    using quotient_of_denom_pos [OF q] quotient_of_div [OF q] by simp_all
  from assms x b have a: "0 < a" by (simp add: zero_less_divide_iff)
  define k where "k = bitlen a - bitlen b"
  have la: "1 \<le> bitlen a" and lb: "1 \<le> bitlen b"
    using a b bitlen_eq_zero_iff [of a] bitlen_eq_zero_iff [of b] bitlen_nonneg [of a]
      bitlen_nonneg [of b] by linarith+
  from bitlen_bounds [OF a] have a1: "(2 :: rat) ^ nat (bitlen a - 1) \<le> of_int a"
    and a2: "(of_int a :: rat) < 2 ^ nat (bitlen a)"
    by (metis of_int_le_iff of_int_numeral of_int_power, metis of_int_less_iff of_int_numeral of_int_power)
  from bitlen_bounds [OF b] have b1: "(2 :: rat) ^ nat (bitlen b - 1) \<le> of_int b"
    and b2: "(of_int b :: rat) < 2 ^ nat (bitlen b)"
    by (metis of_int_le_iff of_int_numeral of_int_power, metis of_int_less_iff of_int_numeral of_int_power)
  have lo: "power_int 2 (k - 1) \<le> x"
  proof -
    have "power_int (2 :: rat) (k - 1) = power_int 2 (bitlen a - 1) / power_int 2 (bitlen b)"
      unfolding k_def by (subst power_int_diff [symmetric]) (simp_all add: algebra_simps)
    also have "\<dots> = 2 ^ nat (bitlen a - 1) / 2 ^ nat (bitlen b)"
      using la lb by (simp add: power_int_nonneg_exp)
    also have "\<dots> \<le> of_int a / of_int b"
      using a1 b2 a b by (intro frac_le) simp_all
    finally show ?thesis by (simp add: x)
  qed
  have hi: "x < power_int 2 (k + 1)"
  proof -
    have "x = of_int a / of_int b" by (rule x)
    also have "\<dots> < 2 ^ nat (bitlen a) / 2 ^ nat (bitlen b - 1)"
      using a2 b1 a b by (intro frac_less) simp_all
    also have "\<dots> = power_int 2 (bitlen a) / power_int 2 (bitlen b - 1)"
      using la lb by (simp add: power_int_nonneg_exp)
    also have "\<dots> = power_int (2 :: rat) (k + 1)"
      unfolding k_def by (subst power_int_diff [symmetric]) (simp_all add: algebra_simps)
    finally show ?thesis .
  qed
  have e: "binadeExponent x = (if power_int 2 k \<le> x then k else k - 1)"
    by (simp add: binadeExponent_def q k_def)
  show "power_int 2 (binadeExponent x) \<le> x"
    using lo by (simp add: e)
  show "x < power_int 2 (binadeExponent x + 1)"
    using hi by (auto simp: e)
qed

lemma binadeExponent_mono:
  assumes "0 < x" "x \<le> y"
  shows "binadeExponent x \<le> binadeExponent y"
proof (rule ccontr)
  assume "\<not> binadeExponent x \<le> binadeExponent y"
  then have "binadeExponent y + 1 \<le> binadeExponent x" by simp
  then have "power_int (2 :: rat) (binadeExponent y + 1) \<le> power_int 2 (binadeExponent x)"
    by (intro power_int_increasing) simp_all
  also have "\<dots> \<le> x" using assms by (intro binadeExponent_bounds)
  finally show False using binadeExponent_bounds(2) [of y] assms by simp
qed

lemma roundHalfEven_of_int [simp]: "roundHalfEven (of_int n) = n"
  by (simp add: roundHalfEven_def)

lemma roundHalfEven_range: "\<lfloor>x\<rfloor> \<le> roundHalfEven x \<and> roundHalfEven x \<le> \<lfloor>x\<rfloor> + 1"
  by (simp add: roundHalfEven_def Let_def)

lemma roundHalfEven_mono:
  assumes "x \<le> y"
  shows "roundHalfEven x \<le> roundHalfEven y"
proof (cases "\<lfloor>x\<rfloor> = \<lfloor>y\<rfloor>")
  case True
  with assms show ?thesis by (auto simp: roundHalfEven_def Let_def)
next
  case False
  with assms have "\<lfloor>x\<rfloor> + 1 \<le> \<lfloor>y\<rfloor>" using floor_mono [OF assms] by simp
  with roundHalfEven_range [of x] roundHalfEven_range [of y] show ?thesis by linarith
qed

lemma power_int_2_split:
  "power_int (2 :: rat) (e + 1) = of_int (2 ^ 53) * power_int 2 (e - 52)"
  "power_int (2 :: rat) e = of_int (2 ^ 52) * power_int 2 (e - 52)"
proof -
  have "power_int (2 :: rat) (e + 1) = power_int 2 (53 + (e - 52))" by (simp add: algebra_simps)
  also have "\<dots> = power_int 2 53 * power_int 2 (e - 52)" by (rule power_int_add) simp
  finally show "power_int (2 :: rat) (e + 1) = of_int (2 ^ 53) * power_int 2 (e - 52)" by simp
  have "power_int (2 :: rat) e = power_int 2 (52 + (e - 52))" by (simp add: algebra_simps)
  also have "\<dots> = power_int 2 52 * power_int 2 (e - 52)" by (rule power_int_add) simp
  finally show "power_int (2 :: rat) e = of_int (2 ^ 52) * power_int 2 (e - 52)" by simp
qed

lemma nearestValue_upper:
  assumes "0 < x" "binadeExponent x \<le> e" "- 1022 \<le> e"
  shows "of_int (roundHalfEven (x / power_int 2 (e - 52))) * power_int 2 (e - 52)
           \<le> power_int (2 :: rat) (e + 1)"
proof -
  let ?u = "power_int (2 :: rat) (e - 52)"
  have u: "0 < ?u" by simp
  have "x < power_int 2 (binadeExponent x + 1)" using assms(1) by (rule binadeExponent_bounds)
  also have "\<dots> \<le> power_int 2 (e + 1)" using assms(2) by (intro power_int_increasing) simp_all
  finally have "x < power_int 2 (e + 1)" .
  then have "x < of_int (2 ^ 53) * ?u" by (simp only: power_int_2_split(1))
  then have "x / ?u < of_int (2 ^ 53)" using u by (simp only: pos_divide_less_eq)
  then have "x / ?u \<le> of_int (2 ^ 53)" by (rule less_imp_le)
  then have "roundHalfEven (x / ?u) \<le> roundHalfEven (of_int (2 ^ 53))" by (rule roundHalfEven_mono)
  then have "roundHalfEven (x / ?u) \<le> 2 ^ 53" by (simp only: roundHalfEven_of_int)
  then have "(of_int (roundHalfEven (x / ?u)) :: rat) \<le> of_int (2 ^ 53)" by (simp only: of_int_le_iff)
  then have "of_int (roundHalfEven (x / ?u)) * ?u \<le> of_int (2 ^ 53) * ?u"
    using u by (intro mult_right_mono) simp_all
  then show ?thesis by (simp only: power_int_2_split(1))
qed

lemma nearestValue_lower:
  assumes "0 < y"
  shows "power_int (2 :: rat) (binadeExponent y)
           \<le> of_int (roundHalfEven (y / power_int 2 (binadeExponent y - 52)))
               * power_int 2 (binadeExponent y - 52)"
proof -
  let ?u = "power_int (2 :: rat) (binadeExponent y - 52)"
  have u: "0 < ?u" by simp
  have "power_int 2 (binadeExponent y) \<le> y" using assms by (rule binadeExponent_bounds)
  then have "of_int (2 ^ 52) * ?u \<le> y"
    by (simp only: power_int_2_split(2) [of "binadeExponent y"])
  then have "of_int (2 ^ 52) \<le> y / ?u" using u by (simp only: pos_le_divide_eq)
  then have "roundHalfEven (of_int (2 ^ 52)) \<le> roundHalfEven (y / ?u)" by (rule roundHalfEven_mono)
  then have "2 ^ 52 \<le> roundHalfEven (y / ?u)" by (simp only: roundHalfEven_of_int)
  then have "(of_int (2 ^ 52) :: rat) \<le> of_int (roundHalfEven (y / ?u))" by (simp only: of_int_le_iff)
  then have "of_int (2 ^ 52) * ?u \<le> of_int (roundHalfEven (y / ?u)) * ?u"
    using u by (intro mult_right_mono) simp_all
  then show ?thesis by (simp only: power_int_2_split(2) [of "binadeExponent y"])
qed

lemma nearestValue_mono:
  assumes "0 < x" "x \<le> y"
  shows "nearestValue x \<le> nearestValue y"
proof -
  define ex where "ex = max (binadeExponent x) (- 1022)"
  define ey where "ey = max (binadeExponent y) (- 1022)"
  have y: "0 < y" using assms by simp
  have le: "ex \<le> ey" using binadeExponent_mono [OF assms] by (simp add: ex_def ey_def)
  have vx: "nearestValue x = of_int (roundHalfEven (x / power_int 2 (ex - 52))) * power_int 2 (ex - 52)"
    by (simp add: nearestValue_def ex_def Let_def)
  have vy: "nearestValue y = of_int (roundHalfEven (y / power_int 2 (ey - 52))) * power_int 2 (ey - 52)"
    by (simp add: nearestValue_def ey_def Let_def)
  show ?thesis
  proof (cases "ex = ey")
    case True
    have "x / power_int 2 (ey - 52) \<le> y / power_int 2 (ey - 52)"
      using assms by (intro divide_right_mono) simp_all
    then have "roundHalfEven (x / power_int 2 (ey - 52)) \<le> roundHalfEven (y / power_int 2 (ey - 52))"
      by (rule roundHalfEven_mono)
    then have "(of_int (roundHalfEven (x / power_int 2 (ey - 52))) :: rat)
                 \<le> of_int (roundHalfEven (y / power_int 2 (ey - 52)))" by simp
    then show ?thesis unfolding vx vy True by (intro mult_right_mono) simp_all
  next
    case False
    with le have lt: "ex < ey" by simp
    then have eyb: "ey = binadeExponent y" by (auto simp: ex_def ey_def)
    have "nearestValue x \<le> power_int 2 (ex + 1)"
      unfolding vx using assms(1) by (intro nearestValue_upper) (simp_all add: ex_def)
    also have "\<dots> \<le> power_int 2 ey" using lt by (intro power_int_increasing) simp_all
    also have "\<dots> \<le> nearestValue y"
      unfolding vy eyb using y by (rule nearestValue_lower)
    finally show ?thesis .
  qed
qed

lemma nearestValue_nonneg: "0 < x \<Longrightarrow> 0 \<le> nearestValue x"
proof -
  assume x: "0 < x"
  have z: "roundHalfEven 0 = 0" using roundHalfEven_of_int [of 0] by simp
  have "0 \<le> x / power_int 2 (max (binadeExponent x) (- 1022) - 52)" using x by simp
  then have "roundHalfEven 0 \<le> roundHalfEven (x / power_int 2 (max (binadeExponent x) (- 1022) - 52))"
    by (rule roundHalfEven_mono)
  with z show ?thesis by (simp add: nearestValue_def Let_def)
qed

lemma jsGe_roundPositive:
  assumes "v \<le> nearestValue y" "jsGe (Finite v) m"
  shows "jsGe (roundPositive y) m"
  using assms by (cases m) (auto simp: roundPositive_def Let_def)

lemma jsGe_roundPositive_mono:
  assumes "nearestValue x \<le> nearestValue y" "jsGe (roundPositive x) m"
  shows "jsGe (roundPositive y) m"
  using assms by (cases m) (auto simp: roundPositive_def Let_def split: if_splits)

lemma roundToDouble_mono:
  assumes "0 \<le> x" "x \<le> y" "jsGe (roundToDouble x) m"
  shows "jsGe (roundToDouble y) m"
proof (cases "x = 0")
  case True
  show ?thesis
  proof (cases "y = 0")
    case True
    with \<open>x = 0\<close> assms show ?thesis by simp
  next
    case False
    with assms have y: "0 < y" by simp
    from assms(3) \<open>x = 0\<close> have "jsGe (Finite 0) m" by (simp add: roundToDouble_def)
    with nearestValue_nonneg [OF y] have "jsGe (roundPositive y) m" by (rule jsGe_roundPositive)
    with y show ?thesis by (simp add: roundToDouble_def)
  qed
next
  case False
  with assms have x: "0 < x" and y: "0 < y" by simp_all
  from assms(3) x have "jsGe (roundPositive x) m" by (simp add: roundToDouble_def)
  with nearestValue_mono [OF x assms(2)] have "jsGe (roundPositive y) m"
    by (rule jsGe_roundPositive_mono)
  with y show ?thesis by (simp add: roundToDouble_def)
qed

text \<open>
  The rounding is determined by its bracket and by the nearest multiple, which gives the
  values at the quotients and literals of the examples, at two ties and at the ends of the
  range.
\<close>

lemma binadeExponent_eqI:
  assumes "0 < x" "power_int 2 e \<le> x" "x < power_int 2 (e + 1)"
  shows "binadeExponent x = e"
proof (rule antisym)
  show "binadeExponent x \<le> e"
  proof (rule ccontr)
    assume "\<not> binadeExponent x \<le> e"
    then have "e + 1 \<le> binadeExponent x" by simp
    then have "power_int (2 :: rat) (e + 1) \<le> power_int 2 (binadeExponent x)"
      by (intro power_int_increasing) simp_all
    also have "\<dots> \<le> x" using assms(1) by (rule binadeExponent_bounds)
    finally show False using assms(3) by simp
  qed
  show "e \<le> binadeExponent x"
  proof (rule ccontr)
    assume "\<not> e \<le> binadeExponent x"
    then have "binadeExponent x + 1 \<le> e" by simp
    then have "power_int (2 :: rat) (binadeExponent x + 1) \<le> power_int 2 e"
      by (intro power_int_increasing) simp_all
    also have "\<dots> \<le> x" by (rule assms(2))
    finally show False using binadeExponent_bounds(2) [OF assms(1)] by simp
  qed
qed

lemma roundHalfEven_eqI:
  assumes "\<bar>x - of_int n\<bar> < 1 / 2 \<or> (\<bar>x - of_int n\<bar> = 1 / 2 \<and> even n)"
  shows "roundHalfEven x = n"
proof (cases "of_int n \<le> x")
  case True
  with assms have "x < of_int n + 1" by auto
  with True have f: "\<lfloor>x\<rfloor> = n" by (intro floor_unique) simp_all
  from assms True show ?thesis by (auto simp: roundHalfEven_def Let_def f)
next
  case False
  with assms have "of_int (n - 1) \<le> x" "x < of_int (n - 1) + 1" by auto
  then have f: "\<lfloor>x\<rfloor> = n - 1" by (rule floor_unique)
  from assms False show ?thesis by (auto simp: roundHalfEven_def Let_def f)
qed

lemma roundToDouble_eqI:
  assumes "0 < x" "power_int 2 e \<le> x" "x < power_int 2 (e + 1)"
    and "\<bar>x / power_int 2 (max e (- 1022) - 52) - of_int n\<bar> < 1 / 2
         \<or> (\<bar>x / power_int 2 (max e (- 1022) - 52) - of_int n\<bar> = 1 / 2 \<and> even n)"
    and "of_int n * power_int 2 (max e (- 1022) - 52) = v" and "v < power_int 2 1024"
  shows "roundToDouble x = Finite v"
proof -
  have "binadeExponent x = e" using assms(1-3) by (rule binadeExponent_eqI)
  moreover have "roundHalfEven (x / power_int 2 (max e (- 1022) - 52)) = n"
    using assms(4) by (rule roundHalfEven_eqI)
  ultimately have "nearestValue x = v" using assms(5) by (simp add: nearestValue_def Let_def)
  with assms(1,6) show ?thesis by (simp add: roundToDouble_def roundPositive_def Let_def)
qed

lemma roundToDouble_InfinityI:
  assumes "0 < x" "power_int 2 1024 \<le> x"
  shows "roundToDouble x = Infinity"
proof -
  have e: "1024 \<le> binadeExponent x"
  proof (rule ccontr)
    assume "\<not> 1024 \<le> binadeExponent x"
    then have "binadeExponent x + 1 \<le> 1024" by simp
    then have "power_int (2 :: rat) (binadeExponent x + 1) \<le> power_int 2 1024"
      by (rule power_int_increasing) simp
    with binadeExponent_bounds(2) [OF assms(1)] assms(2) show False by simp
  qed
  then have m: "max (binadeExponent x) (- 1022) = binadeExponent x" by simp
  have "power_int (2 :: rat) 1024 \<le> power_int 2 (binadeExponent x)"
    using e by (rule power_int_increasing) simp
  also have "\<dots> \<le> nearestValue x"
    unfolding nearestValue_def Let_def m using assms(1) by (rule nearestValue_lower)
  finally show ?thesis using assms(1) by (simp add: roundToDouble_def roundPositive_def Let_def)
qed

lemma roundToDouble_0: "roundToDouble 0 = Finite 0"
  by (simp add: roundToDouble_def)

lemma roundToDouble_1: "roundToDouble 1 = Finite 1"
  by (rule roundToDouble_eqI [where e = 0 and n = 4503599627370496]) simp_all

lemma roundToDouble_half: "roundToDouble (1 / 2) = Finite (1 / 2)"
  by (rule roundToDouble_eqI [where e = "- 1" and n = 4503599627370496]) simp_all

lemma roundToDouble_third:
  "roundToDouble (1 / 3) = Finite (6004799503160661 / 18014398509481984)"
  by (rule roundToDouble_eqI [where e = "- 2" and n = 6004799503160661]) simp_all

lemma roundToDouble_fifth:
  "roundToDouble (1 / 5) = Finite (3602879701896397 / 18014398509481984)"
  by (rule roundToDouble_eqI [where e = "- 3" and n = 7205759403792794]) simp_all

lemma roundToDouble_five_ninths:
  "roundToDouble (5 / 9) = Finite (2501999792983609 / 4503599627370496)"
  by (rule roundToDouble_eqI [where e = "- 1" and n = 5003999585967218]) simp_all

lemma roundToDouble_055:
  "roundToDouble (11 / 20) = Finite (2476979795053773 / 4503599627370496)"
  by (rule roundToDouble_eqI [where e = "- 1" and n = 4953959590107546]) simp_all

lemma roundToDouble_literal:
  "roundToDouble (5555555555555556 / 10000000000000000)
     = Finite (2501999792983609 / 4503599627370496)"
  by (rule roundToDouble_eqI [where e = "- 1" and n = 5003999585967218]) simp_all

lemma roundToDouble_tie_down: "roundToDouble 9007199254740993 = Finite 9007199254740992"
  by (rule roundToDouble_eqI [where e = 53 and n = 4503599627370496]) simp_all

lemma roundToDouble_tie_up: "roundToDouble 9007199254740995 = Finite 9007199254740996"
  by (rule roundToDouble_eqI [where e = 53 and n = 4503599627370498]) simp_all

lemma roundToDouble_overflow: "roundToDouble (2 ^ 1024) = Infinity"
  by (rule roundToDouble_InfinityI) simp_all

lemma roundToDouble_underflow: "roundToDouble (1 / 2 ^ 1075) = Finite 0"
  by (rule roundToDouble_eqI [where e = "- 1075" and n = 0]) simp_all

lemma roundToDouble_subnormal: "roundToDouble (3 / 2 ^ 1075) = Finite (1 / 2 ^ 1073)"
  by (rule roundToDouble_eqI [where e = "- 1074" and n = 2]) simp_all

lemmas roundToDouble_values =
  roundToDouble_0 roundToDouble_1 roundToDouble_half roundToDouble_third roundToDouble_fifth
  roundToDouble_five_ninths roundToDouble_055 roundToDouble_literal

lemma jsDivide_mono:
  assumes "0 < t" "jsGe (jsDivide c (t + 1)) m"
  shows "jsGe (jsDivide c t) m"
proof -
  have "(of_nat c :: rat) / of_nat (t + 1) \<le> of_nat c / of_nat t"
    using assms(1) by (intro divide_left_mono) auto
  moreover have "(0 :: rat) \<le> of_nat c / of_nat (t + 1)" by simp
  moreover have "jsGe (roundToDouble (of_nat c / of_nat (t + 1))) m"
    using assms(2) by (simp add: jsDivide_def)
  ultimately have "jsGe (roundToDouble (of_nat c / of_nat t)) m"
    using roundToDouble_mono [of "of_nat c / of_nat (t + 1)" "of_nat c / of_nat t" m] by blast
  with assms(1) show ?thesis by (simp add: jsDivide_def)
qed

subsection \<open>Properties of the coverage evaluator\<close>

lemma coveredFieldCount_takeWhile:
  "coveredFieldCount S index n = n + length (takeWhile (\<lambda>f. splitFirst f \<in> S) index)"
  by (induction index arbitrary: n) simp_all

lemma coveredFieldCount_prefixCoverage:
  "coveredFieldCount (set queryFields) index 0 = prefixCoverage queryFields index"
  by (simp add: coveredFieldCount_takeWhile prefixCoverage_def)

lemma indicesLoop_Bex:
  "indicesLoop t S indices m =
     (\<exists>index \<in> set indices. jsGe (jsDivide (coveredFieldCount S index 0) t) m)"
  by (induction indices) simp_all

lemma isCoveredByIndex_Bex:
  "isCoveredByIndex qs indexList m =
     (\<exists>index \<in> set indexList. jsGe (jsDivide (prefixCoverage qs index) (length qs)) m)"
  by (simp add: isCoveredByIndex_def indicesLoop_Bex coveredFieldCount_prefixCoverage)

lemma prefixCoverage_Nil: "prefixCoverage [] index = 0"
  by (cases index) (simp_all add: prefixCoverage_def)

lemma prefixCoverage_duplicate:
  "f \<in> set qs \<Longrightarrow> prefixCoverage (qs @ [f]) index = prefixCoverage qs index"
  by (simp add: prefixCoverage_def insert_absorb)

text \<open>
  Claim C2. For a query with at least one field, \<open>isCoveredByIndex\<close> returns true exactly when
  some index of the list meets the threshold under prefix semantics: the number of index
  fields, from the start of the index and up to the first one whose root is not a query field,
  divided by the number of query fields, is at least \<open>minCoverage\<close>, where the quotient is
  the double the program's division yields. In particular an index that meets the threshold
  makes the result true whatever follows it in the list, and the result is false when no
  index meets it.
\<close>

theorem isCoveredByIndex_iff_prefix_threshold:
  assumes "queryFields \<noteq> []"
  shows "isCoveredByIndex queryFields indexList m =
           (\<exists>index \<in> set indexList. meetsThreshold queryFields index m)"
  using assms by (simp add: isCoveredByIndex_Bex meetsThreshold_def)

text \<open>
  Two instances where the threshold is the rounded quotient itself: five of nine fields with
  the literal \<open>0.5555555555555556\<close>, and one of five with the literal \<open>0.2\<close>.
\<close>

theorem isCoveredByIndex_iff_prefix_threshold_witness:
  "[''a'', ''b'', ''c'', ''d'', ''e'', ''f'', ''g'', ''h'', ''i''] \<noteq> ([] :: string list)
   \<and> isCoveredByIndex [''a'', ''b'', ''c'', ''d'', ''e'', ''f'', ''g'', ''h'', ''i'']
        [[''z''], [''a'', ''b.x'', ''c'', ''d'', ''e'', ''y'', ''f'']]
        (roundToDouble (5555555555555556 / 10000000000000000))
   \<and> (\<exists>index \<in> set [[''z''], [''a'', ''b.x'', ''c'', ''d'', ''e'', ''y'', ''f'']].
        meetsThreshold [''a'', ''b'', ''c'', ''d'', ''e'', ''f'', ''g'', ''h'', ''i''] index
          (roundToDouble (5555555555555556 / 10000000000000000)))
   \<and> [''a'', ''b'', ''c'', ''d'', ''e''] \<noteq> ([] :: string list)
   \<and> isCoveredByIndex [''a'', ''b'', ''c'', ''d'', ''e''] [[''a'', ''x'']]
        (roundToDouble (1 / 5))
   \<and> (\<exists>index \<in> set [[''a'', ''x'']].
        meetsThreshold [''a'', ''b'', ''c'', ''d'', ''e''] index (roundToDouble (1 / 5)))"
proof -
  have h: "[''a'', ''b'', ''c'', ''d'', ''e'', ''f'', ''g'', ''h'', ''i''] \<noteq> ([] :: string list)"
    by simp
  have c: "isCoveredByIndex [''a'', ''b'', ''c'', ''d'', ''e'', ''f'', ''g'', ''h'', ''i'']
        [[''z''], [''a'', ''b.x'', ''c'', ''d'', ''e'', ''y'', ''f'']]
        (roundToDouble (5555555555555556 / 10000000000000000))"
    unfolding roundToDouble_values
    by (simp add: isCoveredByIndex_def jsDivide_def splitFirst_def roundToDouble_values)
  have h': "[''a'', ''b'', ''c'', ''d'', ''e''] \<noteq> ([] :: string list)" by simp
  have c': "isCoveredByIndex [''a'', ''b'', ''c'', ''d'', ''e''] [[''a'', ''x'']]
        (roundToDouble (1 / 5))"
    by (simp add: isCoveredByIndex_def jsDivide_def splitFirst_def roundToDouble_values)
  from isCoveredByIndex_iff_prefix_threshold [OF h] isCoveredByIndex_iff_prefix_threshold [OF h']
    h c h' c'
  show ?thesis by blast
qed

text \<open>
  Claim C5, as the code has it. For an empty sequence of query fields the quotient is
  \<open>0 / 0\<close>, which is \<open>NaN\<close>, and no comparison with \<open>NaN\<close> holds: \<open>isCoveredByIndex\<close> returns
  false for every index list and every \<open>minCoverage\<close>. The empty case is decided by the
  caller: \<open>checkIndex\<close> returns without any action when the query has no field.
\<close>

theorem isCoveredByIndex_empty_queryFields:
  "isCoveredByIndex [] indexList m = False
   \<and> checkIndex sha1Base64 modelMetadata queryConditions [] queryOptions sq = ([], sq)"
  by (simp add: isCoveredByIndex_Bex jsDivide_def prefixCoverage_Nil checkIndex_def)

text \<open>The claim C5 as stated fails: the empty query is not covered by the index on \<open>_id\<close>.\<close>

theorem isCoveredByIndex_empty_not_covered:
  "\<not> isCoveredByIndex [] [[''_id'']] (Finite (1 / 2))"
  by (simp add: isCoveredByIndex_def jsDivide_def splitFirst_def)

text \<open>
  Claim C6, as the code has it. A field that occurs twice counts twice in the total and once
  in the set of query fields. Appending a field that already occurs leaves the covered count
  of every index as it was, and can only lower the coverage: when the longer sequence is
  covered, so is the shorter one. The example of the specification returns true.
\<close>

theorem isCoveredByIndex_duplicate_field:
  assumes "f \<in> set queryFields"
  shows "(\<forall>index. prefixCoverage (queryFields @ [f]) index = prefixCoverage queryFields index)
       \<and> (isCoveredByIndex (queryFields @ [f]) indexList m
            \<longrightarrow> isCoveredByIndex queryFields indexList m)
       \<and> isCoveredByIndex [''customer'', ''customer''] [[''customer.name'', ''customer.id'']]
           (Finite 1)"
proof (intro conjI allI impI)
  fix index show "prefixCoverage (queryFields @ [f]) index = prefixCoverage queryFields index"
    using assms by (rule prefixCoverage_duplicate)
next
  assume c: "isCoveredByIndex (queryFields @ [f]) indexList m"
  from assms have ne: "0 < length queryFields" by auto
  from c obtain index where i: "index \<in> set indexList"
    and g: "jsGe (jsDivide (prefixCoverage queryFields index) (length queryFields + 1)) m"
    using assms by (auto simp: isCoveredByIndex_Bex prefixCoverage_duplicate)
  from jsDivide_mono [OF ne g] i
  show "isCoveredByIndex queryFields indexList m"
    by (auto simp: isCoveredByIndex_Bex)
next
  show "isCoveredByIndex [''customer'', ''customer''] [[''customer.name'', ''customer.id'']]
          (Finite 1)"
    by (simp add: isCoveredByIndex_def jsDivide_def splitFirst_def roundToDouble_values)
qed

theorem isCoveredByIndex_duplicate_field_witness:
  "''b'' \<in> set [''a'', ''b'']
   \<and> isCoveredByIndex ([''a'', ''b''] @ [''b'']) [[''a'']] (roundToDouble (1 / 3))
   \<and> isCoveredByIndex [''a'', ''b''] [[''a'']] (roundToDouble (1 / 3))"
proof -
  have h: "''b'' \<in> set [''a'', ''b'']" by simp
  have c: "isCoveredByIndex ([''a'', ''b''] @ [''b'']) [[''a'']] (roundToDouble (1 / 3))"
    by (simp add: isCoveredByIndex_def jsDivide_def splitFirst_def roundToDouble_values)
  from isCoveredByIndex_duplicate_field [OF h, of "[[''a'']]" "roundToDouble (1 / 3)"] c
  have "isCoveredByIndex [''a'', ''b''] [[''a'']] (roundToDouble (1 / 3))" by blast
  with h c show ?thesis by blast
qed

text \<open>
  The claim C6 as stated fails: with the index on \<open>a\<close> and a threshold of one half, the query
  on \<open>a\<close> and \<open>b\<close> is covered, and it is not once \<open>b\<close> is appended again.
\<close>

theorem isCoveredByIndex_duplicate_changes_result:
  "isCoveredByIndex [''a'', ''b''] [[''a'']] (Finite (1 / 2)) \<and>
   \<not> isCoveredByIndex ([''a'', ''b''] @ [''b'']) [[''a'']] (Finite (1 / 2))"
  by (simp add: isCoveredByIndex_def jsDivide_def splitFirst_def roundToDouble_values)

subsection \<open>Properties of the field extractor\<close>

lemma set_setAdd: "set (setAdd x xs) = insert x (set xs)"
  by (auto simp: setAdd_def)

lemma distinct_setAdd: "distinct xs \<Longrightarrow> distinct (setAdd x xs)"
  by (simp add: setAdd_def)

lemma set_fold_setAdd: "set (fold setAdd fs acc) = set fs \<union> set acc"
  by (induction fs arbitrary: acc) (auto simp: set_setAdd)

lemma distinct_fold_setAdd: "distinct acc \<Longrightarrow> distinct (fold setAdd fs acc)"
  by (induction fs arbitrary: acc) (auto simp: distinct_setAdd)

lemma selector_startsWithDollar:
  "k \<in> set SUPPORTED_QUERY_SELECTORS \<Longrightarrow> startsWithDollar k \<and> k \<notin> set FIELDS_TO_IGNORE"
  by (auto simp: SUPPORTED_QUERY_SELECTORS_def FIELDS_TO_IGNORE_def)

lemma reachesField_JObj:
  "reachesField (JObj entries) f \<longleftrightarrow>
     (\<exists>k v. (k, v) \<in> set entries \<and> k \<notin> set FIELDS_TO_IGNORE \<and> \<not> startsWithDollar k
        \<and> f = splitFirst k)
     \<or> (\<exists>k subs sub. (k, JArr subs) \<in> set entries \<and> k \<in> set SUPPORTED_QUERY_SELECTORS
        \<and> sub \<in> set subs \<and> reachesField sub f)"
  by (subst reachesField.simps) auto

lemma topLevelFields_Nil: "topLevelFields (JObj []) = {}"
  by (auto simp: topLevelFields_def reachesField_JObj)

lemma reachesField_Cons:
  "reachesField (JObj ((k, v) # rest)) f \<longleftrightarrow>
     (k \<notin> set FIELDS_TO_IGNORE \<and> \<not> startsWithDollar k \<and> f = splitFirst k)
     \<or> (k \<in> set SUPPORTED_QUERY_SELECTORS
          \<and> (\<exists>subs sub. v = JArr subs \<and> sub \<in> set subs \<and> reachesField sub f))
     \<or> reachesField (JObj rest) f"
  (is "?L \<longleftrightarrow> ?A \<or> ?B \<or> ?C")
proof
  assume ?L
  then show "?A \<or> ?B \<or> ?C"
  proof (cases rule: reachesField.cases)
    case (plainKey k' v')
    then show ?thesis by (auto intro: reachesField.plainKey)
  next
    case (combinator k' subs sub)
    then show ?thesis by (auto intro: reachesField.combinator)
  qed
next
  assume "?A \<or> ?B \<or> ?C"
  then consider ?A | ?B | ?C by blast
  then show ?L
  proof cases
    case 1
    then show ?thesis using reachesField.plainKey [of k v "(k, v) # rest"] by simp
  next
    case 2
    then show ?thesis using reachesField.combinator [of k _ "(k, v) # rest"] by auto
  next
    case 3
    then show ?thesis
    proof (cases rule: reachesField.cases)
      case (plainKey k' v')
      then show ?thesis using reachesField.plainKey [of k' v' "(k, v) # rest"] by simp
    next
      case (combinator k' subs sub)
      then show ?thesis using reachesField.combinator [of k' subs "(k, v) # rest" sub f] by simp
    qed
  qed
qed

lemma topLevelFields_Cons:
  "topLevelFields (JObj ((k, v) # rest)) =
     (if k \<notin> set FIELDS_TO_IGNORE \<and> \<not> startsWithDollar k then {splitFirst k} else {})
     \<union> (if k \<in> set SUPPORTED_QUERY_SELECTORS
        then (case v of JArr subs \<Rightarrow> (\<Union>sub \<in> set subs. topLevelFields sub) | _ \<Rightarrow> {})
        else {})
     \<union> topLevelFields (JObj rest)"
  unfolding topLevelFields_def
  by (rule set_eqI) (auto simp: reachesField_Cons split: jsval.splits)

lemma getRootQueryFields_loops:
  "(isFilter v \<longrightarrow>
      (\<exists>fs. getRootQueryFields v = Inr fs \<and> distinct fs \<and> set fs = topLevelFields v))"
  "(areFilterEntries entries \<longrightarrow> distinct acc \<longrightarrow>
      (\<exists>fs. entriesLoop entries acc = Inr fs \<and> distinct fs
         \<and> set fs = set acc \<union> topLevelFields (JObj entries)))"
  "(areFilters subs \<longrightarrow> distinct acc' \<longrightarrow>
      (\<exists>fs. subConditionsLoop subs acc' = Inr fs \<and> distinct fs
         \<and> set fs = set acc' \<union> (\<Union>sub \<in> set subs. topLevelFields sub)))"
proof (induction v and entries acc and subs acc'
    rule: getRootQueryFields_entriesLoop_subConditionsLoop.induct)
  case (1 entries)
  then show ?case by simp
next
  case (2 elements)
  then show ?case by simp
next
  case (3 p)
  then show ?case by simp
next
  case (4 queryFields)
  then show ?case by (simp add: topLevelFields_Nil)
next
  case (5 fieldOrOperator expression rest queryFields)
  then show ?case
    apply (simp only: topLevelFields_Cons)
    apply (auto simp: set_setAdd distinct_setAdd dest: selector_startsWithDollar split: sum.splits)
    done
next
  case "6_1"
  then show ?case
    apply (simp only: topLevelFields_Cons)
    apply (auto simp: set_setAdd distinct_setAdd dest: selector_startsWithDollar)
    done
next
  case "6_2"
  then show ?case
    apply (simp only: topLevelFields_Cons)
    apply (auto simp: set_setAdd distinct_setAdd dest: selector_startsWithDollar)
    done
next
  case (7 queryFields)
  then show ?case by simp
next
  case (8 subConditions rest queryFields)
  then show ?case
    by (auto simp: set_fold_setAdd distinct_fold_setAdd)
qed

text \<open>
  The equations of \<open>getRootQueryFields\<close> for an array and for a string are what the loop
  returns on the entries \<open>Object.entries\<close> lists for them: the indices as keys, in decimal.
\<close>

lemma decimal_nonempty: "decimal n \<noteq> []"
  by (subst decimal.simps) simp

lemma digit_of_char: "d < 10 \<Longrightarrow> of_char (char_of (48 + d :: nat)) = (48 + d :: nat)"
  by simp

lemma decimal_digits: "c \<in> set (decimal n) \<Longrightarrow> (48 :: nat) \<le> of_char c \<and> of_char c < (58 :: nat)"
proof (induction n rule: decimal.induct)
  case (1 n)
  show ?case
  proof (cases "n < 10")
    case True
    with "1.prems" have "c = char_of (48 + n)" by (subst (asm) decimal.simps) simp
    with True show ?thesis by simp
  next
    case False
    with "1.prems" have "c \<in> set (decimal (n div 10)) \<or> c = char_of (48 + n mod 10)"
      by (subst (asm) decimal.simps) auto
    then show ?thesis
    proof
      assume "c \<in> set (decimal (n div 10))"
      with "1.IH" False show ?thesis by simp
    next
      assume c: "c = char_of (48 + n mod 10)"
      have "n mod 10 < 10" by simp
      then have "of_char (char_of (48 + n mod 10 :: nat)) = (48 + n mod 10 :: nat)"
        by (rule digit_of_char)
      with c show ?thesis by simp
    qed
  qed
qed

lemma decimal_inj: "decimal n = decimal m \<Longrightarrow> n = m"
proof (induction n arbitrary: m rule: decimal.induct)
  case (1 n)
  show ?case
  proof (cases "n < 10")
    case n: True
    show ?thesis
    proof (cases "m < 10")
      case True
      from "1.prems" n True have "(char_of (48 + n) :: char) = char_of (48 + m)"
        by (simp add: decimal.simps [of n] decimal.simps [of m])
      then have "of_char (char_of (48 + n) :: char) = (of_char (char_of (48 + m) :: char) :: nat)"
        by simp
      with n True show ?thesis by simp
    next
      case False
      from "1.prems" n False have "length (decimal (m div 10)) = 0"
        by (simp add: decimal.simps [of n] decimal.simps [of m])
      with decimal_nonempty show ?thesis by simp
    qed
  next
    case n: False
    show ?thesis
    proof (cases "m < 10")
      case True
      from "1.prems" n True have "length (decimal (n div 10)) = 0"
        by (simp add: decimal.simps [of n] decimal.simps [of m])
      with decimal_nonempty show ?thesis by simp
    next
      case False
      from "1.prems" n False
      have e: "decimal (n div 10) = decimal (m div 10)"
        and l: "(char_of (48 + n mod 10) :: char) = char_of (48 + m mod 10)"
        by (simp_all add: decimal.simps [of n] decimal.simps [of m])
      from "1.IH" [OF n e] have d: "n div 10 = m div 10" .
      from l have "of_char (char_of (48 + n mod 10) :: char) = (of_char (char_of (48 + m mod 10) :: char) :: nat)"
        by simp
      then have "n mod 10 = m mod 10" by simp
      with d show ?thesis by (metis div_mult_mod_eq)
    qed
  qed
qed

lemma decimal_plain:
  "decimal n \<notin> set FIELDS_TO_IGNORE" "decimal n \<notin> set SUPPORTED_QUERY_SELECTORS"
  "\<not> startsWithDollar (decimal n)" "splitFirst (decimal n) = decimal n"
proof -
  obtain c cs where k: "decimal n = c # cs"
    using decimal_nonempty [of n] by (cases "decimal n") auto
  then have "c \<in> set (decimal n)" by simp
  then have c: "(48 :: nat) \<le> of_char c \<and> of_char c < (58 :: nat)" by (rule decimal_digits)
  then have "c \<noteq> CHR ''$''" "c \<noteq> CHR ''_''" by auto
  with k show "\<not> startsWithDollar (decimal n)" "decimal n \<notin> set FIELDS_TO_IGNORE"
    by (auto simp: FIELDS_TO_IGNORE_def)
  then show "decimal n \<notin> set SUPPORTED_QUERY_SELECTORS"
    using selector_startsWithDollar [of "decimal n"] by blast
  have "\<forall>x \<in> set (decimal n). x \<noteq> CHR ''.''"
  proof
    fix x assume "x \<in> set (decimal n)"
    then have "(48 :: nat) \<le> of_char x" using decimal_digits [of x n] by simp
    then show "x \<noteq> CHR ''.''" by auto
  qed
  then show "splitFirst (decimal n) = decimal n"
    unfolding splitFirst_def by (simp add: takeWhile_eq_all_conv)
qed

lemma entriesLoop_plain_keys:
  assumes "length ks = length vs"
    and "\<forall>k \<in> set ks. k \<notin> set FIELDS_TO_IGNORE \<and> k \<notin> set SUPPORTED_QUERY_SELECTORS
           \<and> \<not> startsWithDollar k \<and> splitFirst k = k"
  shows "entriesLoop (zip ks vs) acc = Inr (fold setAdd ks acc)"
  using assms
proof (induction ks vs arbitrary: acc rule: list_induct2)
  case Nil
  then show ?case by simp
next
  case (Cons k ks v vs)
  then show ?case by (cases v) simp_all
qed

lemma fold_setAdd_distinct:
  "distinct ks \<Longrightarrow> set ks \<inter> set acc = {} \<Longrightarrow> fold setAdd ks acc = acc @ ks"
  by (induction ks arbitrary: acc) (auto simp: setAdd_def)

lemma distinct_indexKeys: "distinct (indexKeys n)"
  unfolding indexKeys_def by (simp add: distinct_map inj_on_def) (metis decimal_inj)

lemma entriesLoop_indexKeys:
  assumes "length vs = n"
  shows "entriesLoop (zip (indexKeys n) vs) [] = Inr (indexKeys n)"
proof -
  have "entriesLoop (zip (indexKeys n) vs) [] = Inr (fold setAdd (indexKeys n) [])"
    using assms by (intro entriesLoop_plain_keys) (auto simp: indexKeys_def decimal_plain)
  then show ?thesis by (simp add: fold_setAdd_distinct distinct_indexKeys)
qed

lemma getRootQueryFields_array_entries:
  "getRootQueryFields (JArr elements)
     = entriesLoop (zip (indexKeys (length elements)) elements) []"
  by (simp add: entriesLoop_indexKeys)

lemma getRootQueryFields_string_entries:
  "getRootQueryFields (JPrim (Str s))
     = entriesLoop (zip (indexKeys (length s)) (map (\<lambda>c. JPrim (Str [c])) s)) []"
  by (simp add: entriesLoop_indexKeys)

text \<open>
  Claim C1. On a filter built from plain keys, ignored keys, operator keys and the combinators
  \<open>$and\<close>, \<open>$nor\<close>, \<open>$or\<close> over arrays of such filters, \<open>getRootQueryFields\<close> returns, and
  what it returns is a list without repetitions of exactly the top-level field names the
  filter reaches: the part before the first dot of every plain key, at any depth under the
  combinators, and nothing for an ignored key or for another operator key, whatever its value.
\<close>

theorem getRootQueryFields_exact:
  assumes "isFilter queryConditions"
  shows "\<exists>fs. getRootQueryFields queryConditions = Inr fs \<and> distinct fs
           \<and> set fs = topLevelFields queryConditions"
  using assms getRootQueryFields_loops(1) [of queryConditions] by blast

theorem getRootQueryFields_exact_witness:
  "isFilter
     (JObj [(''$or'', JArr
        [JObj [(''$and'', JArr [JObj [(''customer.alias'', JPrim (Str ''bee''))],
                                JObj [(''createdAt'', JPrim (Str ''2020-09-09''))]])],
         JObj [(''$nor'', JArr [JObj [(''location'', JPrim (Str ''U.S.''))],
                                JObj [(''status'', JPrim (Str ''in progress''))]])],
         JObj [(''batch'', JPrim (Str ''abc'')), (''_bsontype'', JPrim (Str ''ObjectID'')),
               (''$text'', JArr [JObj [(''hidden'', JPrim (Bool True))]])]])])
   \<and> topLevelFields
     (JObj [(''$or'', JArr
        [JObj [(''$and'', JArr [JObj [(''customer.alias'', JPrim (Str ''bee''))],
                                JObj [(''createdAt'', JPrim (Str ''2020-09-09''))]])],
         JObj [(''$nor'', JArr [JObj [(''location'', JPrim (Str ''U.S.''))],
                                JObj [(''status'', JPrim (Str ''in progress''))]])],
         JObj [(''batch'', JPrim (Str ''abc'')), (''_bsontype'', JPrim (Str ''ObjectID'')),
               (''$text'', JArr [JObj [(''hidden'', JPrim (Bool True))]])]])])
     = set [''customer'', ''createdAt'', ''location'', ''status'', ''batch'']"
  (is "isFilter ?q \<and> topLevelFields ?q = set ?r")
proof -
  have h: "isFilter ?q"
    by (simp add: SUPPORTED_QUERY_SELECTORS_def)
  have r: "getRootQueryFields ?q = Inr ?r"
    by (simp add: SUPPORTED_QUERY_SELECTORS_def FIELDS_TO_IGNORE_def splitFirst_def setAdd_def)
  from getRootQueryFields_exact [OF h] r have "topLevelFields ?q = set ?r" by auto
  with h show ?thesis by blast
qed

subsection \<open>Properties of the two checks\<close>

lemma digest_eq: "sliceLast5 (hash H qs) = throttleDigest H qs"
  by (simp add: hash_def throttleDigest_def)

lemma checkField_throw:
  assumes "violatesField md qs" "opt_shouldThrow (options sq) ()"
    "throwMessage (opt_checkField (options sq)) = Some msg"
  shows "checkField H md qc qs qo sq =
           ([NextCalled (InvalidField (msg (fieldViolation md qc qs qo)))], sq)"
  using assms by (simp add: checkField_def violatesField_def fieldViolation_def Let_def)

lemma checkField_warn:
  assumes "violatesField md qs" "warnPath sq (opt_checkField (options sq))"
  shows "checkField H md qc qs qo sq =
           (if throttleDigest H qs \<in> warnedFieldQueries sq then ([], sq)
            else ([WarnActionCalled
                     (the (warnAction (opt_checkField (options sq))) (fieldViolation md qc qs qo))],
                  sq\<lparr>warnedFieldQueries := insert (throttleDigest H qs) (warnedFieldQueries sq)\<rparr>))"
  using assms
  by (auto simp: checkField_def violatesField_def fieldViolation_def Let_def warnPath_def digest_eq)

lemma checkIndex_throw:
  assumes "violatesIndex sq md qs" "opt_shouldThrow (options sq) ()"
    "throwMessage (opt_checkIndex (options sq)) = Some msg"
  shows "checkIndex H md qc qs qo sq =
           ([NextCalled (LowIndexCoverage (msg (indexViolation md qc qs qo)))], sq)"
  using assms by (simp add: checkIndex_def violatesIndex_def indexViolation_def Let_def)

lemma checkIndex_warn:
  assumes "violatesIndex sq md qs" "warnPath sq (opt_checkIndex (options sq))"
  shows "checkIndex H md qc qs qo sq =
           (if throttleDigest H qs \<in> warnedIndexQueries sq then ([], sq)
            else ([WarnActionCalled
                     (the (warnAction (opt_checkIndex (options sq))) (indexViolation md qc qs qo))],
                  sq\<lparr>warnedIndexQueries := insert (throttleDigest H qs) (warnedIndexQueries sq)\<rparr>))"
  using assms
  by (auto simp: checkIndex_def violatesIndex_def indexViolation_def Let_def warnPath_def digest_eq)

lemma checkField_options: "options (snd (checkField H md qc qs qo sq)) = options sq"
  by (simp add: checkField_def Let_def)

lemma checkIndex_options: "options (snd (checkIndex H md qc qs qo sq)) = options sq"
  by (simp add: checkIndex_def Let_def)

lemma warnPath_field_update [simp]:
  "warnPath (sq\<lparr>warnedFieldQueries := W\<rparr>) h = warnPath sq h"
  "warnPath (sq\<lparr>warnedIndexQueries := W\<rparr>) h = warnPath sq h"
  by (simp_all add: warnPath_def)

lemma violatesIndex_update [simp]:
  "violatesIndex (sq\<lparr>warnedFieldQueries := W\<rparr>) md qs = violatesIndex sq md qs"
  "violatesIndex (sq\<lparr>warnedIndexQueries := W\<rparr>) md qs = violatesIndex sq md qs"
  by (simp_all add: violatesIndex_def)

text \<open>
  Claim C3. On the warn path of a check, a violating query whose digest is not in the throttle
  set calls the \<open>warnAction\<close> once; the same field combination again calls nothing; after
  \<open>clearWarnedFieldQueries\<close> (for \<open>checkIndex\<close>: \<open>clearWarnedIndexQueries\<close>) it calls the
  \<open>warnAction\<close> once more. Two field combinations with different digests, neither in the
  throttle set, call the \<open>warnAction\<close> once each. The four parts are: \<open>checkField\<close> twice and
  after a clear, \<open>checkField\<close> on two combinations, and the same two for \<open>checkIndex\<close>.
\<close>

theorem warnAction_throttled_per_digest:
  "(warnPath sq (opt_checkField (options sq)) \<and> violatesField md qs
      \<and> throttleDigest H qs \<notin> warnedFieldQueries sq \<longrightarrow>
      (let (first, sq1) = checkField H md qc qs qo sq;
           (second, sq2) = checkField H md qc qs qo sq1;
           (third, sq3) = checkField H md qc qs qo (clearWarnedFieldQueries sq2)
       in length (warnActions first) = 1 \<and> warnActions second = []
          \<and> length (warnActions third) = 1))
   \<and> (warnPath sq (opt_checkField (options sq)) \<and> violatesField md qs \<and> violatesField md' qs'
      \<and> throttleDigest H qs \<notin> warnedFieldQueries sq
      \<and> throttleDigest H qs' \<notin> warnedFieldQueries sq
      \<and> throttleDigest H qs' \<noteq> throttleDigest H qs \<longrightarrow>
      (let (first, sq1) = checkField H md qc qs qo sq;
           (other, sq2) = checkField H md' qc' qs' qo' sq1
       in length (warnActions first) = 1 \<and> length (warnActions other) = 1))
   \<and> (warnPath sq (opt_checkIndex (options sq)) \<and> violatesIndex sq md qs
      \<and> throttleDigest H qs \<notin> warnedIndexQueries sq \<longrightarrow>
      (let (first, sq1) = checkIndex H md qc qs qo sq;
           (second, sq2) = checkIndex H md qc qs qo sq1;
           (third, sq3) = checkIndex H md qc qs qo (clearWarnedIndexQueries sq2)
       in length (warnActions first) = 1 \<and> warnActions second = []
          \<and> length (warnActions third) = 1))
   \<and> (warnPath sq (opt_checkIndex (options sq)) \<and> violatesIndex sq md qs
      \<and> violatesIndex sq md' qs'
      \<and> throttleDigest H qs \<notin> warnedIndexQueries sq
      \<and> throttleDigest H qs' \<notin> warnedIndexQueries sq
      \<and> throttleDigest H qs' \<noteq> throttleDigest H qs \<longrightarrow>
      (let (first, sq1) = checkIndex H md qc qs qo sq;
           (other, sq2) = checkIndex H md' qc' qs' qo' sq1
       in length (warnActions first) = 1 \<and> length (warnActions other) = 1))"
proof (intro conjI impI)
  assume a: "warnPath sq (opt_checkField (options sq)) \<and> violatesField md qs
      \<and> throttleDigest H qs \<notin> warnedFieldQueries sq"
  then show "let (first, sq1) = checkField H md qc qs qo sq;
           (second, sq2) = checkField H md qc qs qo sq1;
           (third, sq3) = checkField H md qc qs qo (clearWarnedFieldQueries sq2)
       in length (warnActions first) = 1 \<and> warnActions second = []
          \<and> length (warnActions third) = 1"
    by (simp add: checkField_warn clearWarnedFieldQueries_def)
next
  assume a: "warnPath sq (opt_checkField (options sq)) \<and> violatesField md qs \<and> violatesField md' qs'
      \<and> throttleDigest H qs \<notin> warnedFieldQueries sq
      \<and> throttleDigest H qs' \<notin> warnedFieldQueries sq
      \<and> throttleDigest H qs' \<noteq> throttleDigest H qs"
  then show "let (first, sq1) = checkField H md qc qs qo sq;
           (other, sq2) = checkField H md' qc' qs' qo' sq1
       in length (warnActions first) = 1 \<and> length (warnActions other) = 1"
    by (simp add: checkField_warn)
next
  assume a: "warnPath sq (opt_checkIndex (options sq)) \<and> violatesIndex sq md qs
      \<and> throttleDigest H qs \<notin> warnedIndexQueries sq"
  then show "let (first, sq1) = checkIndex H md qc qs qo sq;
           (second, sq2) = checkIndex H md qc qs qo sq1;
           (third, sq3) = checkIndex H md qc qs qo (clearWarnedIndexQueries sq2)
       in length (warnActions first) = 1 \<and> warnActions second = []
          \<and> length (warnActions third) = 1"
    by (simp add: checkIndex_warn clearWarnedIndexQueries_def)
next
  assume a: "warnPath sq (opt_checkIndex (options sq)) \<and> violatesIndex sq md qs
      \<and> violatesIndex sq md' qs'
      \<and> throttleDigest H qs \<notin> warnedIndexQueries sq
      \<and> throttleDigest H qs' \<notin> warnedIndexQueries sq
      \<and> throttleDigest H qs' \<noteq> throttleDigest H qs"
  then show "let (first, sq1) = checkIndex H md qc qs qo sq;
           (other, sq2) = checkIndex H md' qc' qs' qo' sq1
       in length (warnActions first) = 1 \<and> length (warnActions other) = 1"
    by (simp add: checkIndex_warn)
qed

lemma checkField_throw_disabled:
  assumes "throwMessage (opt_checkField (options sq)) = None"
  shows "checkField H md qc qs qo sq =
           (let (events, sq') = checkField H md qc qs qo (setThrowCondition (Constant False) sq)
            in (events, sq'\<lparr>options := options sq\<rparr>))"
    and "failures (fst (checkField H md qc qs qo sq)) = []"
  using assms by (auto simp: checkField_def setThrowCondition_def Let_def)

lemma checkIndex_throw_disabled:
  assumes "throwMessage (opt_checkIndex (options sq)) = None"
  shows "checkIndex H md qc qs qo sq =
           (let (events, sq') = checkIndex H md qc qs qo (setThrowCondition (Constant False) sq)
            in (events, sq'\<lparr>options := options sq\<rparr>))"
    and "failures (fst (checkIndex H md qc qs qo sq)) = []"
  using assms by (auto simp: checkIndex_def setThrowCondition_def Let_def)

text \<open>
  Claim C4. On a violating query, when \<open>shouldThrow()\<close> holds and the handler has a
  \<open>throwMessage\<close>, the check passes to \<open>next\<close> the error (\<open>InvalidField\<close> for \<open>checkField\<close>,
  \<open>LowIndexCoverage\<close> for \<open>checkIndex\<close>) with the message the callback returns for the
  violation record; that is its only call, so no \<open>warnAction\<close> runs, and the object is
  unchanged, whatever \<open>shouldWarn()\<close> says. When \<open>shouldThrow()\<close> holds and the handler has no
  \<open>throwMessage\<close>, no error is passed to \<open>next\<close> and the check does what it does with throwing
  switched off.
\<close>

theorem throwMessage_takes_priority:
  "(violatesField md qs \<and> opt_shouldThrow (options sq) ()
      \<and> throwMessage (opt_checkField (options sq)) = Some msg \<longrightarrow>
      checkField H md qc qs qo sq =
        ([NextCalled (InvalidField (msg (fieldViolation md qc qs qo)))], sq))
   \<and> (violatesIndex sq md qs \<and> opt_shouldThrow (options sq) ()
      \<and> throwMessage (opt_checkIndex (options sq)) = Some msg' \<longrightarrow>
      checkIndex H md qc qs qo sq =
        ([NextCalled (LowIndexCoverage (msg' (indexViolation md qc qs qo)))], sq))
   \<and> (opt_shouldThrow (options sq) () \<and> throwMessage (opt_checkField (options sq)) = None \<longrightarrow>
      failures (fst (checkField H md qc qs qo sq)) = [] \<and>
      checkField H md qc qs qo sq =
        (let (events, sq') = checkField H md qc qs qo (setThrowCondition (Constant False) sq)
         in (events, sq'\<lparr>options := options sq\<rparr>)))
   \<and> (opt_shouldThrow (options sq) () \<and> throwMessage (opt_checkIndex (options sq)) = None \<longrightarrow>
      failures (fst (checkIndex H md qc qs qo sq)) = [] \<and>
      checkIndex H md qc qs qo sq =
        (let (events, sq') = checkIndex H md qc qs qo (setThrowCondition (Constant False) sq)
         in (events, sq'\<lparr>options := options sq\<rparr>)))"
  using checkField_throw [of md qs sq msg H qc qo] checkIndex_throw [of sq md qs msg' H qc qo]
    checkField_throw_disabled [of sq H md qc qs qo] checkIndex_throw_disabled [of sq H md qc qs qo]
  by blast

lemma sort_mset_eq: "mset xs = mset ys \<Longrightarrow> sort xs = sort (ys :: string list)"
  by (rule properties_for_sort) simp_all

lemma length_sliceLast5: "length (sliceLast5 s) = min 5 (length s)"
  by (auto simp: sliceLast5_def)

lemma sliceLast5_suffix: "\<exists>front. s = front @ sliceLast5 s"
  unfolding sliceLast5_def by (metis append_take_drop_id)

lemma throttleDigest_mset: "mset qs = mset qs' \<Longrightarrow> throttleDigest H qs = throttleDigest H qs'"
  by (simp add: throttleDigest_def sort_mset_eq [of qs qs'])

text \<open>
  Claim C7. The digest that both checks look up and record is the digest function of the
  specification applied to \<open>queryFields\<close>: the last five characters (all of them when there are
  fewer) of the hash of the concatenation of the sorted field names. Two sequences that are
  permutations of each other have the same digest. On the warn path a violating query with a
  new digest adds the digest of \<open>queryFields\<close> to the throttle set of its check, and a later
  violating query with a permutation of the same fields is suppressed even when the model,
  and with it the violating subset, is another one.
\<close>

theorem throttle_digest_of_queryFields:
  "sliceLast5 (hash H qs) = throttleDigest H qs
   \<and> (mset qs' = mset qs \<longrightarrow> sliceLast5 (hash H qs') = sliceLast5 (hash H qs))
   \<and> length (sliceLast5 (hash H qs)) = min 5 (length (hash H qs))
   \<and> (\<exists>front. hash H qs = front @ sliceLast5 (hash H qs))
   \<and> (warnPath sq (opt_checkField (options sq)) \<and> violatesField md qs
        \<and> sliceLast5 (hash H qs) \<notin> warnedFieldQueries sq \<longrightarrow>
      warnedFieldQueries (snd (checkField H md qc qs qo sq))
        = insert (sliceLast5 (hash H qs)) (warnedFieldQueries sq))
   \<and> (warnPath sq (opt_checkIndex (options sq)) \<and> violatesIndex sq md qs
        \<and> sliceLast5 (hash H qs) \<notin> warnedIndexQueries sq \<longrightarrow>
      warnedIndexQueries (snd (checkIndex H md qc qs qo sq))
        = insert (sliceLast5 (hash H qs)) (warnedIndexQueries sq))
   \<and> (warnPath sq (opt_checkField (options sq)) \<and> violatesField md qs \<and> violatesField md' qs'
        \<and> mset qs' = mset qs \<longrightarrow>
      warnActions (fst (checkField H md' qc' qs' qo' (snd (checkField H md qc qs qo sq)))) = [])
   \<and> (warnPath sq (opt_checkIndex (options sq)) \<and> violatesIndex sq md qs
        \<and> violatesIndex sq md' qs' \<and> mset qs' = mset qs \<longrightarrow>
      warnActions (fst (checkIndex H md' qc' qs' qo' (snd (checkIndex H md qc qs qo sq)))) = [])"
proof (intro conjI impI)
  show "sliceLast5 (hash H qs) = throttleDigest H qs" by (rule digest_eq)
next
  assume "mset qs' = mset qs"
  then show "sliceLast5 (hash H qs') = sliceLast5 (hash H qs)"
    by (simp add: digest_eq throttleDigest_mset [of qs' qs])
next
  show "length (sliceLast5 (hash H qs)) = min 5 (length (hash H qs))"
    by (rule length_sliceLast5)
next
  show "\<exists>front. hash H qs = front @ sliceLast5 (hash H qs)" by (rule sliceLast5_suffix)
next
  assume "warnPath sq (opt_checkField (options sq)) \<and> violatesField md qs
        \<and> sliceLast5 (hash H qs) \<notin> warnedFieldQueries sq"
  then show "warnedFieldQueries (snd (checkField H md qc qs qo sq))
        = insert (sliceLast5 (hash H qs)) (warnedFieldQueries sq)"
    by (simp add: checkField_warn digest_eq)
next
  assume "warnPath sq (opt_checkIndex (options sq)) \<and> violatesIndex sq md qs
        \<and> sliceLast5 (hash H qs) \<notin> warnedIndexQueries sq"
  then show "warnedIndexQueries (snd (checkIndex H md qc qs qo sq))
        = insert (sliceLast5 (hash H qs)) (warnedIndexQueries sq)"
    by (simp add: checkIndex_warn digest_eq)
next
  assume a: "warnPath sq (opt_checkField (options sq)) \<and> violatesField md qs \<and> violatesField md' qs'
        \<and> mset qs' = mset qs"
  then have d: "throttleDigest H qs' = throttleDigest H qs" by (intro throttleDigest_mset) simp
  from a d show "warnActions (fst (checkField H md' qc' qs' qo' (snd (checkField H md qc qs qo sq)))) = []"
    by (simp add: checkField_warn)
next
  assume a: "warnPath sq (opt_checkIndex (options sq)) \<and> violatesIndex sq md qs
        \<and> violatesIndex sq md' qs' \<and> mset qs' = mset qs"
  then have d: "throttleDigest H qs' = throttleDigest H qs" by (intro throttleDigest_mset) simp
  from a d show "warnActions (fst (checkIndex H md' qc' qs' qo' (snd (checkIndex H md qc qs qo sq)))) = []"
    by (simp add: checkIndex_warn)
qed

subsection \<open>Properties of the metadata cache and of the default options\<close>

lemma options_newSafeQuery_None: "options (newSafeQuery None) = DEFAULT_OPTIONS"
  by (simp add: newSafeQuery_def defaultsDeep_def defaultParameter_def orDefault_def
      defaultsField_def defaultsIndex_def asPartial_def orElse_def DEFAULT_OPTIONS_def)

lemma getMetadata_hit:
  "modelMetadataMap sq (modelName model) = Some existing \<Longrightarrow> getMetadata model sq = (existing, sq)"
  by (simp add: getMetadata_def)

lemma getMetadata_miss:
  "modelMetadataMap sq (modelName model) = None \<Longrightarrow>
     getMetadata model sq =
       (newEntry model,
        sq\<lparr>modelMetadataMap := (modelMetadataMap sq)(modelName model \<mapsto> newEntry model)\<rparr>)"
  by (simp add: getMetadata_def newEntry_def Let_def)

lemma getMetadata_stored:
  "modelMetadataMap (snd (getMetadata model sq)) (modelName model) = Some (fst (getMetadata model sq))"
  by (cases "modelMetadataMap sq (modelName model)") (simp_all add: getMetadata_hit getMetadata_miss)

lemma getMetadata_again:
  assumes "modelName model' = modelName model"
  shows "getMetadata model' (snd (getMetadata model sq)) = getMetadata model sq"
proof -
  have "modelMetadataMap (snd (getMetadata model sq)) (modelName model')
          = Some (fst (getMetadata model sq))"
    using assms getMetadata_stored [of model sq] by simp
  from getMetadata_hit [OF this] show ?thesis by simp
qed

text \<open>
  Claim C8. \<open>getMetadata\<close> returns the entry of the cache under the model's name when there
  is one, and leaves the object as it is. Otherwise it returns and stores the new entry: the
  keys of the schema tree as fields, and the key lists of the schema's indexes followed by
  the index on \<open>_id\<close>. In both cases the cache then holds what was returned, and a second call
  for the same name returns the same entry and changes nothing.
\<close>

theorem getMetadata_memoizes:
  "(modelMetadataMap sq (modelName model) = Some existing \<longrightarrow>
      getMetadata model sq = (existing, sq))
   \<and> (modelMetadataMap sq (modelName model) = None \<longrightarrow>
      getMetadata model sq =
        (newEntry model,
         sq\<lparr>modelMetadataMap := (modelMetadataMap sq)(modelName model \<mapsto> newEntry model)\<rparr>))
   \<and> modelMetadataMap (snd (getMetadata model sq)) (modelName model)
        = Some (fst (getMetadata model sq))
   \<and> (modelName model' = modelName model \<longrightarrow>
      getMetadata model' (snd (getMetadata model sq)) = getMetadata model sq)"
  using getMetadata_hit [of sq model existing] getMetadata_miss [of sq model]
    getMetadata_stored [of model sq] getMetadata_again [of model' model sq]
  by blast

lemma endsWithIdIndex_newEntry: "endsWithIdIndex (newEntry model)"
  by (simp add: endsWithIdIndex_def newEntry_def)

lemma cache_getMetadata:
  assumes "cacheEndsWithIdIndex sq"
  shows "cacheEndsWithIdIndex (snd (getMetadata model sq))"
    and "endsWithIdIndex (fst (getMetadata model sq))"
proof -
  show "cacheEndsWithIdIndex (snd (getMetadata model sq))"
  proof (cases "modelMetadataMap sq (modelName model)")
    case None
    then show ?thesis
      using assms by (simp add: getMetadata_miss cacheEndsWithIdIndex_def endsWithIdIndex_newEntry)
  next
    case (Some e)
    then show ?thesis using assms by (simp add: getMetadata_hit)
  qed
  show "endsWithIdIndex (fst (getMetadata model sq))"
  proof (cases "modelMetadataMap sq (modelName model)")
    case None
    then show ?thesis by (simp add: getMetadata_miss endsWithIdIndex_newEntry)
  next
    case (Some e)
    then show ?thesis using assms by (simp add: getMetadata_hit cacheEndsWithIdIndex_def)
  qed
qed

lemma modelMetadataMap_checkField:
  "modelMetadataMap (snd (checkField H md qc qs qo sq)) = modelMetadataMap sq"
  by (simp add: checkField_def Let_def)

lemma modelMetadataMap_checkIndex:
  "modelMetadataMap (snd (checkIndex H md qc qs qo sq)) = modelMetadataMap sq"
  by (simp add: checkIndex_def Let_def)

lemma reachable_cache: "reachable sq \<Longrightarrow> cacheEndsWithIdIndex sq"
proof (induction rule: reachable.induct)
  case (constructed given)
  then show ?case by (simp add: cacheEndsWithIdIndex_def newSafeQuery_def)
next
  case (gotMetadata sq model)
  from gotMetadata.IH show ?case by (rule cache_getMetadata(1))
next
  case (checkedField sq sha1Base64 modelMetadata queryConditions queryFields queryOptions)
  then show ?case by (simp add: cacheEndsWithIdIndex_def modelMetadataMap_checkField)
next
  case (checkedIndex sq sha1Base64 modelMetadata queryConditions queryFields queryOptions)
  then show ?case by (simp add: cacheEndsWithIdIndex_def modelMetadataMap_checkIndex)
next
  case (warnConditionSet sq c)
  then show ?case
    by (cases c) (simp_all add: cacheEndsWithIdIndex_def setWarnCondition_def)
next
  case (throwConditionSet sq c)
  then show ?case
    by (cases c) (simp_all add: cacheEndsWithIdIndex_def setThrowCondition_def)
next
  case (fieldCheckHandlerSet sq fh)
  then show ?case by (simp add: cacheEndsWithIdIndex_def setFieldCheckHandler_def)
next
  case (indexCheckHandlerSet sq ih)
  then show ?case by (simp add: cacheEndsWithIdIndex_def setIndexCheckHandler_def)
next
  case (fieldQueriesCleared sq)
  then show ?case by (simp add: cacheEndsWithIdIndex_def clearWarnedFieldQueries_def)
next
  case (indexQueriesCleared sq)
  then show ?case by (simp add: cacheEndsWithIdIndex_def clearWarnedIndexQueries_def)
qed

text \<open>
  Claim C9. In every object a program can have, \<open>getMetadata\<close> returns metadata whose index
  list is not empty and ends with the index on \<open>_id\<close>. For such metadata the first test of
  \<open>checkIndex\<close>, no index or no query field, holds exactly when there is no query field.
\<close>

theorem getMetadata_indices_end_with_id:
  assumes "reachable sq"
  shows "endsWithIdIndex (fst (getMetadata model sq))
       \<and> length (md_indices (fst (getMetadata model sq))) \<noteq> 0
       \<and> ((length (md_indices (fst (getMetadata model sq))) = 0 \<or> length queryFields = 0)
            = (queryFields = []))"
proof -
  from assms have "cacheEndsWithIdIndex sq" by (rule reachable_cache)
  then have "endsWithIdIndex (fst (getMetadata model sq))" by (rule cache_getMetadata(2))
  then show ?thesis by (simp add: endsWithIdIndex_def)
qed

text \<open>
  Claim C10. The object constructed without options has \<open>shouldThrow()\<close> false, no
  \<open>throwMessage\<close> in either handler, \<open>shouldWarn()\<close> true and the two default warning
  handlers. For every object with these options and every query, the warn path of both checks
  is open, neither check passes an error to \<open>next\<close>, and both leave the options as they are.
\<close>

theorem default_options_never_fail:
  "shouldThrow (newSafeQuery None) = False
   \<and> throwMessage (opt_checkField (options (newSafeQuery None))) = None
   \<and> throwMessage (opt_checkIndex (options (newSafeQuery None))) = None
   \<and> shouldWarn (newSafeQuery None) = True
   \<and> warnAction (opt_checkField (options (newSafeQuery None))) = Some defaultFieldWarningHandler
   \<and> warnAction (opt_checkIndex (options (newSafeQuery None))) = Some defaultIndexWarningHandler
   \<and> (options sq = options (newSafeQuery None) \<longrightarrow>
        warnPath sq (opt_checkField (options sq)) \<and> warnPath sq (opt_checkIndex (options sq))
        \<and> failures (fst (checkField H md qc qs qo sq)) = []
        \<and> failures (fst (checkIndex H md qc qs qo sq)) = []
        \<and> options (snd (checkField H md qc qs qo sq)) = options (newSafeQuery None)
        \<and> options (snd (checkIndex H md qc qs qo sq)) = options (newSafeQuery None))"
proof -
  have d: "options (newSafeQuery None) = DEFAULT_OPTIONS" by (rule options_newSafeQuery_None)
  have 1: "shouldThrow (newSafeQuery None) = False" "shouldWarn (newSafeQuery None) = True"
    by (simp_all add: shouldThrow_def shouldWarn_def d DEFAULT_OPTIONS_def)
  have 2: "throwMessage (opt_checkField DEFAULT_OPTIONS) = None"
    "throwMessage (opt_checkIndex DEFAULT_OPTIONS) = None"
    "warnAction (opt_checkField DEFAULT_OPTIONS) = Some defaultFieldWarningHandler"
    "warnAction (opt_checkIndex DEFAULT_OPTIONS) = Some defaultIndexWarningHandler"
    by (simp_all add: DEFAULT_OPTIONS_def)
  have 3: "warnPath sq (opt_checkField (options sq)) \<and> warnPath sq (opt_checkIndex (options sq))"
    if "options sq = DEFAULT_OPTIONS"
    using that by (simp add: warnPath_def DEFAULT_OPTIONS_def)
  show ?thesis
    using 1 2 3 checkField_throw_disabled(2) [of sq H md qc qs qo]
      checkIndex_throw_disabled(2) [of sq H md qc qs qo]
    by (simp add: d checkField_options checkIndex_options)
qed


subsection \<open>The properties at the example data\<close>

lemma projectMetadata_eq:
  "projectMetadata =
     \<lparr> md_modelName = ''project'',
       md_fields = set [''name'', ''createdAt'', ''updatedAt'', ''priority'', ''active'', ''config'', ''_id''],
       md_indices = [[''createdAt''], [''name''], [''_id'']] \<rparr>"
  by (simp add: projectMetadata_def getMetadata_def newSafeQuery_def projectModel_def objectKeys_def Let_def)

lemma options_strictSafeQuery:
  "options strictSafeQuery =
     DEFAULT_OPTIONS\<lparr>opt_checkIndex :=
       \<lparr> warnAction = Some defaultIndexWarningHandler, throwMessage = None,
         minCoverage = roundToDouble (11 / 20) \<rparr>\<rparr>"
  by (simp add: strictSafeQuery_def setIndexCheckHandler_def options_newSafeQuery_None
      defaultsIndex_def orElse_def orDefault_def DEFAULT_OPTIONS_def)

lemma warned_strictSafeQuery:
  "warnedFieldQueries strictSafeQuery = {}" "warnedIndexQueries strictSafeQuery = {}"
  by (simp_all add: strictSafeQuery_def setIndexCheckHandler_def newSafeQuery_def)

lemma warnPath_strictSafeQuery:
  "warnPath strictSafeQuery (opt_checkField (options strictSafeQuery))"
  "warnPath strictSafeQuery (opt_checkIndex (options strictSafeQuery))"
  by (simp_all add: warnPath_def options_strictSafeQuery DEFAULT_OPTIONS_def)

lemma violatesField_project:
  "violatesField projectMetadata [''name'', ''zzz'']"
  "violatesField projectMetadata [''other'']"
  by (simp_all add: violatesField_def getNonExistingFields_def projectMetadata_eq)

lemma violatesIndex_project:
  "violatesIndex strictSafeQuery projectMetadata [''name'', ''zzz'']"
  "violatesIndex strictSafeQuery projectMetadata [''other'']"
  by (simp_all add: violatesIndex_def projectMetadata_eq options_strictSafeQuery
      isCoveredByIndex_def jsDivide_def splitFirst_def jsOrZero_def DEFAULT_OPTIONS_def
      roundToDouble_values)

lemma digests_differ:
  "throttleDigest plainDigest [''other''] \<noteq> throttleDigest plainDigest [''name'', ''zzz'']"
  by (simp add: throttleDigest_def plainDigest_def sliceLast5_def)

theorem warnAction_throttled_per_digest_witness:
  "(warnPath strictSafeQuery (opt_checkField (options strictSafeQuery)) \<and> violatesField projectMetadata [''name'', ''zzz'']
      \<and> throttleDigest plainDigest [''name'', ''zzz''] \<notin> warnedFieldQueries strictSafeQuery)
   \<and> (let (first, sq1) = checkField plainDigest projectMetadata (JObj [(''name'', JPrim (Str ''x'')), (''zzz'', JPrim (Bool True))]) [''name'', ''zzz''] None strictSafeQuery;
           (second, sq2) = checkField plainDigest projectMetadata (JObj [(''name'', JPrim (Str ''x'')), (''zzz'', JPrim (Bool True))]) [''name'', ''zzz''] None sq1;
           (third, sq3) = checkField plainDigest projectMetadata (JObj [(''name'', JPrim (Str ''x'')), (''zzz'', JPrim (Bool True))]) [''name'', ''zzz''] None (clearWarnedFieldQueries sq2)
       in length (warnActions first) = 1 \<and> warnActions second = []
          \<and> length (warnActions third) = 1)
   \<and> (warnPath strictSafeQuery (opt_checkField (options strictSafeQuery)) \<and> violatesField projectMetadata [''name'', ''zzz'']
      \<and> violatesField projectMetadata [''other'']
      \<and> throttleDigest plainDigest [''name'', ''zzz''] \<notin> warnedFieldQueries strictSafeQuery
      \<and> throttleDigest plainDigest [''other''] \<notin> warnedFieldQueries strictSafeQuery
      \<and> throttleDigest plainDigest [''other''] \<noteq> throttleDigest plainDigest [''name'', ''zzz''])
   \<and> (let (first, sq1) = checkField plainDigest projectMetadata (JObj [(''name'', JPrim (Str ''x'')), (''zzz'', JPrim (Bool True))]) [''name'', ''zzz''] None strictSafeQuery;
           (other, sq2) = checkField plainDigest projectMetadata (JObj [(''other'', JPrim (Bool True))]) [''other''] (Some (Some ''audit'')) sq1
       in length (warnActions first) = 1 \<and> length (warnActions other) = 1)
   \<and> (warnPath strictSafeQuery (opt_checkIndex (options strictSafeQuery)) \<and> violatesIndex strictSafeQuery projectMetadata [''name'', ''zzz'']
      \<and> throttleDigest plainDigest [''name'', ''zzz''] \<notin> warnedIndexQueries strictSafeQuery)
   \<and> (let (first, sq1) = checkIndex plainDigest projectMetadata (JObj [(''name'', JPrim (Str ''x'')), (''zzz'', JPrim (Bool True))]) [''name'', ''zzz''] None strictSafeQuery;
           (second, sq2) = checkIndex plainDigest projectMetadata (JObj [(''name'', JPrim (Str ''x'')), (''zzz'', JPrim (Bool True))]) [''name'', ''zzz''] None sq1;
           (third, sq3) = checkIndex plainDigest projectMetadata (JObj [(''name'', JPrim (Str ''x'')), (''zzz'', JPrim (Bool True))]) [''name'', ''zzz''] None (clearWarnedIndexQueries sq2)
       in length (warnActions first) = 1 \<and> warnActions second = []
          \<and> length (warnActions third) = 1)
   \<and> (warnPath strictSafeQuery (opt_checkIndex (options strictSafeQuery)) \<and> violatesIndex strictSafeQuery projectMetadata [''name'', ''zzz'']
      \<and> violatesIndex strictSafeQuery projectMetadata [''other'']
      \<and> throttleDigest plainDigest [''name'', ''zzz''] \<notin> warnedIndexQueries strictSafeQuery
      \<and> throttleDigest plainDigest [''other''] \<notin> warnedIndexQueries strictSafeQuery
      \<and> throttleDigest plainDigest [''other''] \<noteq> throttleDigest plainDigest [''name'', ''zzz''])
   \<and> (let (first, sq1) = checkIndex plainDigest projectMetadata (JObj [(''name'', JPrim (Str ''x'')), (''zzz'', JPrim (Bool True))]) [''name'', ''zzz''] None strictSafeQuery;
           (other, sq2) = checkIndex plainDigest projectMetadata (JObj [(''other'', JPrim (Bool True))]) [''other''] (Some (Some ''audit'')) sq1
       in length (warnActions first) = 1 \<and> length (warnActions other) = 1)"
proof -
  note t = warnAction_throttled_per_digest [where sq = "strictSafeQuery" and md = "projectMetadata" and md' = "projectMetadata" and qs = "[''name'', ''zzz'']" and qs' = "[''other'']" and H = "plainDigest" and qc = "(JObj [(''name'', JPrim (Str ''x'')), (''zzz'', JPrim (Bool True))])" and qc' = "(JObj [(''other'', JPrim (Bool True))])" and qo = "None" and qo' = "(Some (Some ''audit''))"]
  have h1: "warnPath strictSafeQuery (opt_checkField (options strictSafeQuery)) \<and> violatesField projectMetadata [''name'', ''zzz'']
      \<and> throttleDigest plainDigest [''name'', ''zzz''] \<notin> warnedFieldQueries strictSafeQuery"
    by (simp add: warnPath_strictSafeQuery violatesField_project violatesIndex_project
        warned_strictSafeQuery digests_differ)
  have h2: "warnPath strictSafeQuery (opt_checkField (options strictSafeQuery)) \<and> violatesField projectMetadata [''name'', ''zzz'']
      \<and> violatesField projectMetadata [''other'']
      \<and> throttleDigest plainDigest [''name'', ''zzz''] \<notin> warnedFieldQueries strictSafeQuery
      \<and> throttleDigest plainDigest [''other''] \<notin> warnedFieldQueries strictSafeQuery
      \<and> throttleDigest plainDigest [''other''] \<noteq> throttleDigest plainDigest [''name'', ''zzz'']"
    by (simp add: warnPath_strictSafeQuery violatesField_project violatesIndex_project
        warned_strictSafeQuery digests_differ)
  have h3: "warnPath strictSafeQuery (opt_checkIndex (options strictSafeQuery)) \<and> violatesIndex strictSafeQuery projectMetadata [''name'', ''zzz'']
      \<and> throttleDigest plainDigest [''name'', ''zzz''] \<notin> warnedIndexQueries strictSafeQuery"
    by (simp add: warnPath_strictSafeQuery violatesField_project violatesIndex_project
        warned_strictSafeQuery digests_differ)
  have h4: "warnPath strictSafeQuery (opt_checkIndex (options strictSafeQuery)) \<and> violatesIndex strictSafeQuery projectMetadata [''name'', ''zzz'']
      \<and> violatesIndex strictSafeQuery projectMetadata [''other'']
      \<and> throttleDigest plainDigest [''name'', ''zzz''] \<notin> warnedIndexQueries strictSafeQuery
      \<and> throttleDigest plainDigest [''other''] \<notin> warnedIndexQueries strictSafeQuery
      \<and> throttleDigest plainDigest [''other''] \<noteq> throttleDigest plainDigest [''name'', ''zzz'']"
    by (simp add: warnPath_strictSafeQuery violatesField_project violatesIndex_project
        warned_strictSafeQuery digests_differ)
  have c1: "(let (first, sq1) = checkField plainDigest projectMetadata (JObj [(''name'', JPrim (Str ''x'')), (''zzz'', JPrim (Bool True))]) [''name'', ''zzz''] None strictSafeQuery;
           (second, sq2) = checkField plainDigest projectMetadata (JObj [(''name'', JPrim (Str ''x'')), (''zzz'', JPrim (Bool True))]) [''name'', ''zzz''] None sq1;
           (third, sq3) = checkField plainDigest projectMetadata (JObj [(''name'', JPrim (Str ''x'')), (''zzz'', JPrim (Bool True))]) [''name'', ''zzz''] None (clearWarnedFieldQueries sq2)
       in length (warnActions first) = 1 \<and> warnActions second = []
          \<and> length (warnActions third) = 1)"
    using t [THEN conjunct1] h1 by (rule mp)
  have c2: "(let (first, sq1) = checkField plainDigest projectMetadata (JObj [(''name'', JPrim (Str ''x'')), (''zzz'', JPrim (Bool True))]) [''name'', ''zzz''] None strictSafeQuery;
           (other, sq2) = checkField plainDigest projectMetadata (JObj [(''other'', JPrim (Bool True))]) [''other''] (Some (Some ''audit'')) sq1
       in length (warnActions first) = 1 \<and> length (warnActions other) = 1)"
    using t [THEN conjunct2 [THEN conjunct1]] h2 by (rule mp)
  have c3: "(let (first, sq1) = checkIndex plainDigest projectMetadata (JObj [(''name'', JPrim (Str ''x'')), (''zzz'', JPrim (Bool True))]) [''name'', ''zzz''] None strictSafeQuery;
           (second, sq2) = checkIndex plainDigest projectMetadata (JObj [(''name'', JPrim (Str ''x'')), (''zzz'', JPrim (Bool True))]) [''name'', ''zzz''] None sq1;
           (third, sq3) = checkIndex plainDigest projectMetadata (JObj [(''name'', JPrim (Str ''x'')), (''zzz'', JPrim (Bool True))]) [''name'', ''zzz''] None (clearWarnedIndexQueries sq2)
       in length (warnActions first) = 1 \<and> warnActions second = []
          \<and> length (warnActions third) = 1)"
    using t [THEN conjunct2 [THEN conjunct2, THEN conjunct1]] h3 by (rule mp)
  have c4: "(let (first, sq1) = checkIndex plainDigest projectMetadata (JObj [(''name'', JPrim (Str ''x'')), (''zzz'', JPrim (Bool True))]) [''name'', ''zzz''] None strictSafeQuery;
           (other, sq2) = checkIndex plainDigest projectMetadata (JObj [(''other'', JPrim (Bool True))]) [''other''] (Some (Some ''audit'')) sq1
       in length (warnActions first) = 1 \<and> length (warnActions other) = 1)"
    using t [THEN conjunct2 [THEN conjunct2, THEN conjunct2]] h4 by (rule mp)
  from h1 c1 h2 c2 h3 c3 h4 c4 show ?thesis by blast
qed

lemma options_throwingSafeQuery:
  "options throwingSafeQuery =
     \<lparr> opt_shouldWarn = (\<lambda>_. True), opt_shouldThrow = (\<lambda>_. True),
       opt_checkField = \<lparr> warnAction = Some defaultFieldWarningHandler,
                          throwMessage = Some (\<lambda>q. ''invalid field'') \<rparr>,
       opt_checkIndex = \<lparr> warnAction = Some defaultIndexWarningHandler,
                          throwMessage = Some (\<lambda>q. ''insufficient index coverage''),
                          minCoverage = roundToDouble (11 / 20) \<rparr> \<rparr>"
  by (simp add: throwingSafeQuery_def setIndexCheckHandler_def setFieldCheckHandler_def
      setThrowCondition_def options_newSafeQuery_None defaultsIndex_def defaultsField_def
      orElse_def orDefault_def DEFAULT_OPTIONS_def)

lemma options_silentThrowSafeQuery:
  "options silentThrowSafeQuery = (options strictSafeQuery)\<lparr>opt_shouldThrow := (\<lambda>_. True)\<rparr>"
  by (simp add: silentThrowSafeQuery_def setThrowCondition_def)

lemma violatesIndex_throwing:
  "violatesIndex throwingSafeQuery projectMetadata [''name'', ''zzz'']"
  by (simp add: violatesIndex_def projectMetadata_eq options_throwingSafeQuery
      isCoveredByIndex_def jsDivide_def splitFirst_def jsOrZero_def roundToDouble_values)

theorem throwMessage_takes_priority_witness:
  "(violatesField projectMetadata [''name'', ''zzz'']
      \<and> opt_shouldThrow (options throwingSafeQuery) ()
      \<and> throwMessage (opt_checkField (options throwingSafeQuery)) = Some (\<lambda>q. ''invalid field''))
   \<and> shouldWarn throwingSafeQuery
   \<and> warnAction (opt_checkField (options throwingSafeQuery)) = Some defaultFieldWarningHandler
   \<and> checkField plainDigest projectMetadata exampleConditions [''name'', ''zzz''] None
        throwingSafeQuery
      = ([NextCalled (InvalidField ''invalid field'')], throwingSafeQuery)
   \<and> (violatesIndex throwingSafeQuery projectMetadata [''name'', ''zzz'']
      \<and> opt_shouldThrow (options throwingSafeQuery) ()
      \<and> throwMessage (opt_checkIndex (options throwingSafeQuery))
          = Some (\<lambda>q. ''insufficient index coverage''))
   \<and> checkIndex plainDigest projectMetadata exampleConditions [''name'', ''zzz''] None
        throwingSafeQuery
      = ([NextCalled (LowIndexCoverage ''insufficient index coverage'')], throwingSafeQuery)
   \<and> (opt_shouldThrow (options silentThrowSafeQuery) ()
      \<and> throwMessage (opt_checkField (options silentThrowSafeQuery)) = None)
   \<and> failures (fst (checkField plainDigest projectMetadata exampleConditions [''name'', ''zzz'']
        None silentThrowSafeQuery)) = []
   \<and> (opt_shouldThrow (options silentThrowSafeQuery) ()
      \<and> throwMessage (opt_checkIndex (options silentThrowSafeQuery)) = None)
   \<and> failures (fst (checkIndex plainDigest projectMetadata exampleConditions [''name'', ''zzz'']
        None silentThrowSafeQuery)) = []"
proof -
  note t = throwMessage_takes_priority [where sq = throwingSafeQuery and md = projectMetadata
      and qs = "[''name'', ''zzz'']" and H = plainDigest and qc = exampleConditions and qo = None
      and msg = "\<lambda>q. ''invalid field''" and msg' = "\<lambda>q. ''insufficient index coverage''"]
  note u = throwMessage_takes_priority [where sq = silentThrowSafeQuery and md = projectMetadata
      and qs = "[''name'', ''zzz'']" and H = plainDigest and qc = exampleConditions and qo = None]
  have h1: "violatesField projectMetadata [''name'', ''zzz'']
      \<and> opt_shouldThrow (options throwingSafeQuery) ()
      \<and> throwMessage (opt_checkField (options throwingSafeQuery)) = Some (\<lambda>q. ''invalid field'')"
    by (simp add: violatesField_project options_throwingSafeQuery)
  have w: "shouldWarn throwingSafeQuery"
    "warnAction (opt_checkField (options throwingSafeQuery)) = Some defaultFieldWarningHandler"
    by (simp_all add: shouldWarn_def options_throwingSafeQuery)
  have h2: "violatesIndex throwingSafeQuery projectMetadata [''name'', ''zzz'']
      \<and> opt_shouldThrow (options throwingSafeQuery) ()
      \<and> throwMessage (opt_checkIndex (options throwingSafeQuery))
          = Some (\<lambda>q. ''insufficient index coverage'')"
    by (simp add: violatesIndex_throwing options_throwingSafeQuery)
  have h3: "opt_shouldThrow (options silentThrowSafeQuery) ()
      \<and> throwMessage (opt_checkField (options silentThrowSafeQuery)) = None"
    by (simp add: options_silentThrowSafeQuery options_strictSafeQuery DEFAULT_OPTIONS_def)
  have h4: "opt_shouldThrow (options silentThrowSafeQuery) ()
      \<and> throwMessage (opt_checkIndex (options silentThrowSafeQuery)) = None"
    by (simp add: options_silentThrowSafeQuery options_strictSafeQuery DEFAULT_OPTIONS_def)
  from t h1 have c1: "checkField plainDigest projectMetadata exampleConditions [''name'', ''zzz'']
        None throwingSafeQuery
      = ([NextCalled (InvalidField ''invalid field'')], throwingSafeQuery)"
    by blast
  from t h2 have c2: "checkIndex plainDigest projectMetadata exampleConditions [''name'', ''zzz'']
        None throwingSafeQuery
      = ([NextCalled (LowIndexCoverage ''insufficient index coverage'')], throwingSafeQuery)"
    by blast
  from u h3 have c3: "failures (fst (checkField plainDigest projectMetadata exampleConditions
        [''name'', ''zzz''] None silentThrowSafeQuery)) = []"
    by blast
  from u h4 have c4: "failures (fst (checkIndex plainDigest projectMetadata exampleConditions
        [''name'', ''zzz''] None silentThrowSafeQuery)) = []"
    by blast
  from h1 w c1 h2 c2 h3 c3 h4 c4 show ?thesis by blast
qed

lemma violatesField_idOnly:
  "violatesField (projectMetadata\<lparr>md_fields := {''_id''}\<rparr>) [''zzz'', ''name'']"
  by (simp add: violatesField_def getNonExistingFields_def)

lemma violatesIndex_idOnly:
  "violatesIndex strictSafeQuery (projectMetadata\<lparr>md_fields := {''_id''}\<rparr>) [''zzz'', ''name'']"
  by (simp add: violatesIndex_def projectMetadata_eq options_strictSafeQuery
      isCoveredByIndex_def jsDivide_def splitFirst_def jsOrZero_def roundToDouble_values)

theorem throttle_digest_of_queryFields_witness:
  "mset [''zzz'', ''name''] = mset [''name'', ''zzz'']
   \<and> sliceLast5 (hash plainDigest [''zzz'', ''name'']) = sliceLast5 (hash plainDigest [''name'', ''zzz''])
   \<and> (warnPath strictSafeQuery (opt_checkField (options strictSafeQuery))
      \<and> violatesField projectMetadata [''name'', ''zzz'']
      \<and> sliceLast5 (hash plainDigest [''name'', ''zzz'']) \<notin> warnedFieldQueries strictSafeQuery)
   \<and> warnedFieldQueries (snd (checkField plainDigest projectMetadata exampleConditions
        [''name'', ''zzz''] None strictSafeQuery))
      = insert (sliceLast5 (hash plainDigest [''name'', ''zzz'']))
          (warnedFieldQueries strictSafeQuery)
   \<and> (warnPath strictSafeQuery (opt_checkIndex (options strictSafeQuery))
      \<and> violatesIndex strictSafeQuery projectMetadata [''name'', ''zzz'']
      \<and> sliceLast5 (hash plainDigest [''name'', ''zzz'']) \<notin> warnedIndexQueries strictSafeQuery)
   \<and> warnedIndexQueries (snd (checkIndex plainDigest projectMetadata exampleConditions
        [''name'', ''zzz''] None strictSafeQuery))
      = insert (sliceLast5 (hash plainDigest [''name'', ''zzz'']))
          (warnedIndexQueries strictSafeQuery)
   \<and> violatesField (projectMetadata\<lparr>md_fields := {''_id''}\<rparr>) [''zzz'', ''name'']
   \<and> getNonExistingFields [''name'', ''zzz''] (md_fields projectMetadata) = [''zzz'']
   \<and> getNonExistingFields [''zzz'', ''name''] {''_id''} = [''zzz'', ''name'']
   \<and> warnActions (fst (checkField plainDigest (projectMetadata\<lparr>md_fields := {''_id''}\<rparr>)
        exampleConditions [''zzz'', ''name''] None
        (snd (checkField plainDigest projectMetadata exampleConditions [''name'', ''zzz''] None
           strictSafeQuery)))) = []
   \<and> violatesIndex strictSafeQuery (projectMetadata\<lparr>md_fields := {''_id''}\<rparr>)
        [''zzz'', ''name'']
   \<and> warnActions (fst (checkIndex plainDigest (projectMetadata\<lparr>md_fields := {''_id''}\<rparr>)
        exampleConditions [''zzz'', ''name''] None
        (snd (checkIndex plainDigest projectMetadata exampleConditions [''name'', ''zzz''] None
           strictSafeQuery)))) = []"
proof -
  note t = throttle_digest_of_queryFields [where sq = strictSafeQuery and md = projectMetadata
      and md' = "projectMetadata\<lparr>md_fields := {''_id''}\<rparr>"
      and qs = "[''name'', ''zzz'']" and qs' = "[''zzz'', ''name'']" and H = plainDigest
      and qc = exampleConditions and qc' = exampleConditions and qo = None and qo' = None]
  have m: "mset [''zzz'', ''name''] = mset [''name'', ''zzz'']" by simp
  have f: "warnPath strictSafeQuery (opt_checkField (options strictSafeQuery))"
    "violatesField projectMetadata [''name'', ''zzz'']"
    "sliceLast5 (hash plainDigest [''name'', ''zzz'']) \<notin> warnedFieldQueries strictSafeQuery"
    "violatesField (projectMetadata\<lparr>md_fields := {''_id''}\<rparr>) [''zzz'', ''name'']"
    by (simp_all add: warnPath_strictSafeQuery violatesField_project warned_strictSafeQuery
        violatesField_idOnly)
  have i: "warnPath strictSafeQuery (opt_checkIndex (options strictSafeQuery))"
    "violatesIndex strictSafeQuery projectMetadata [''name'', ''zzz'']"
    "sliceLast5 (hash plainDigest [''name'', ''zzz'']) \<notin> warnedIndexQueries strictSafeQuery"
    "violatesIndex strictSafeQuery (projectMetadata\<lparr>md_fields := {''_id''}\<rparr>) [''zzz'', ''name'']"
    by (simp_all add: warnPath_strictSafeQuery violatesIndex_project warned_strictSafeQuery
        violatesIndex_idOnly)
  have g: "getNonExistingFields [''name'', ''zzz''] (md_fields projectMetadata) = [''zzz'']"
    "getNonExistingFields [''zzz'', ''name''] {''_id''} = [''zzz'', ''name'']"
    by (simp_all add: getNonExistingFields_def projectMetadata_eq)
  from t m f i g show ?thesis by blast
qed

theorem getMetadata_memoizes_witness:
  "modelMetadataMap (newSafeQuery None) (modelName projectModel) = None
   \<and> getMetadata projectModel (newSafeQuery None)
      = (newEntry projectModel,
         (newSafeQuery None)\<lparr>modelMetadataMap :=
            (modelMetadataMap (newSafeQuery None))(modelName projectModel \<mapsto> newEntry projectModel)\<rparr>)
   \<and> modelMetadataMap cachedSafeQuery (modelName projectModel) = Some projectMetadata
   \<and> getMetadata projectModel cachedSafeQuery = (projectMetadata, cachedSafeQuery)
   \<and> modelName (projectModel\<lparr>schema := \<lparr>tree = [], indexes = []\<rparr>\<rparr>) = modelName projectModel
   \<and> getMetadata (projectModel\<lparr>schema := \<lparr>tree = [], indexes = []\<rparr>\<rparr>)
        (snd (getMetadata projectModel (newSafeQuery None)))
      = getMetadata projectModel (newSafeQuery None)"
proof -
  note t = getMetadata_memoizes [where sq = "newSafeQuery None" and model = projectModel
      and model' = "projectModel\<lparr>schema := \<lparr>tree = [], indexes = []\<rparr>\<rparr>"]
  note u = getMetadata_memoizes [where sq = cachedSafeQuery and model = projectModel and existing = projectMetadata]
  have h1: "modelMetadataMap (newSafeQuery None) (modelName projectModel) = None"
    by (simp add: newSafeQuery_def)
  have h2: "modelMetadataMap cachedSafeQuery (modelName projectModel) = Some projectMetadata"
    by (simp add: cachedSafeQuery_def projectMetadata_def getMetadata_stored)
  have h3: "modelName (projectModel\<lparr>schema := \<lparr>tree = [], indexes = []\<rparr>\<rparr>) = modelName projectModel"
    by simp
  from t u h1 h2 h3 show ?thesis by blast
qed

theorem getMetadata_indices_end_with_id_witness:
  "reachable (newSafeQuery None)
   \<and> endsWithIdIndex (fst (getMetadata projectModel (newSafeQuery None)))
   \<and> length (md_indices (fst (getMetadata projectModel (newSafeQuery None)))) \<noteq> 0"
proof -
  have h: "reachable (newSafeQuery None)" by (rule reachable.constructed)
  from getMetadata_indices_end_with_id [OF h, of projectModel "[''name'']"] h show ?thesis by blast
qed

theorem default_options_never_fail_witness:
  "options cachedSafeQuery = options (newSafeQuery None)
   \<and> failures (fst (checkField plainDigest projectMetadata exampleConditions [''name'', ''zzz'']
        None cachedSafeQuery)) = []
   \<and> failures (fst (checkIndex plainDigest projectMetadata exampleConditions [''name'', ''zzz'']
        None cachedSafeQuery)) = []"
proof -
  have h: "options cachedSafeQuery = options (newSafeQuery None)"
    by (simp add: cachedSafeQuery_def getMetadata_def Let_def newSafeQuery_def)
  from default_options_never_fail [where sq = cachedSafeQuery and H = plainDigest and md = projectMetadata
      and qc = exampleConditions and qs = "[''name'', ''zzz'']" and qo = None] h
  show ?thesis by blast
qed

end
